theory Spec2Isabelle
  imports Complex_Main "HOL-Library.AList" "HOL-Library.Multiset"
begin

section \<open>The star-history generator (.github/scripts/generate-star-history.py)\<close>

text \<open>
  The script has three functions: \<open>get_star_history\<close> pages through the stargazers
  endpoint of one repository and returns its cumulative series, \<open>generate_chart\<close> plots a
  mapping from repository to series and saves the figure, and \<open>main\<close> fetches every
  configured repository, renders once and returns the exit code.

  Everything the script does to the outside is explicit in a \<open>world\<close>: the requests sent so
  far, the lines printed so far and the file system. The library calls are modelled by what
  they do when the operating system lets them: \<open>requests.get\<close> yields a response,
  \<open>print\<close> appends a line, \<open>Path.mkdir\<close> and \<open>savefig\<close> succeed. The exceptions that depend
  on the data the script processes (\<open>response.json()\<close>, iterating and indexing the decoded
  body, \<open>datetime.strptime\<close>, unpacking \<open>repo.split("/")\<close>) are values of \<open>py_error\<close>.
\<close>

subsection \<open>Configuration (lines 20 to 45)\<close>

definition REPOS :: "string list" where
  "REPOS =
    [''bittner/pyclean'',
     ''painless-software/python-cli-test-helpers'',
     ''painless-software/django-probes'',
     ''behave/behave-django'',
     ''jazzband/django-analytical'',
     ''behave/behave'']"

type_synonym path = "string list"
  \<comment> \<open>a \<open>pathlib.Path\<close>, by its components\<close>

definition OUTPUT_DIR :: path where
  "OUTPUT_DIR = [''star-history'']"

definition OUTPUT_FILE :: path where
  "OUTPUT_FILE = OUTPUT_DIR @ [''star-history.svg'']"

definition MAX_PAGES :: nat where
  "MAX_PAGES = 100"

definition PER_PAGE :: nat where
  "PER_PAGE = 100"

definition CHART_DPI :: nat where
  "CHART_DPI = 100"

definition COLORS :: "string list" where
  "COLORS =
    [''#1f77b4'', ''#ff7f0e'', ''#2ca02c'', ''#d62728'', ''#9467bd'', ''#8c564b'',
     ''#e377c2'', ''#7f7f7f'', ''#bcbd22'', ''#17becf'']"

subsection \<open>Python values and exceptions\<close>

datatype py_error =
    ValueError | TypeError | KeyError | JSONDecodeError

text \<open>What \<open>response.json()\<close> returns: the decoded body.\<close>

datatype json =
    JNull
  | JBool bool
  | JNumber real
  | JString string
  | JArray "json list"
  | JObject "(string \<times> json) list"

text \<open>Truth value of a decoded body (\<open>if not data\<close>).\<close>

fun truthy :: "json \<Rightarrow> bool" where
  "truthy JNull = False"
| "truthy (JBool b) = b"
| "truthy (JNumber r) = (r \<noteq> 0)"
| "truthy (JString s) = (s \<noteq> [])"
| "truthy (JArray xs) = (xs \<noteq> [])"
| "truthy (JObject kvs) = (kvs \<noteq> [])"

text \<open>\<open>for item in data\<close>: a list yields its elements, a dict its keys, a string its
  characters; anything else is not iterable.\<close>

fun py_iter :: "json \<Rightarrow> py_error + json list" where
  "py_iter (JArray xs) = Inr xs"
| "py_iter (JObject kvs) = Inr (map (\<lambda>kv. JString (fst kv)) kvs)"
| "py_iter (JString s) = Inr (map (\<lambda>c. JString [c]) s)"
| "py_iter _ = Inl TypeError"

fun py_len :: "json \<Rightarrow> py_error + nat" where
  "py_len (JArray xs) = Inr (length xs)"
| "py_len (JObject kvs) = Inr (length kvs)"
| "py_len (JString s) = Inr (length s)"
| "py_len _ = Inl TypeError"

text \<open>\<open>item["starred_at"]\<close>: only a dict can be indexed by a string.\<close>

fun getitem_starred_at :: "json \<Rightarrow> py_error + json" where
  "getitem_starred_at (JObject kvs) =
     (case map_of kvs ''starred_at'' of None \<Rightarrow> Inl KeyError | Some v \<Rightarrow> Inr v)"
| "getitem_starred_at _ = Inl TypeError"

text \<open>
  \<open>datetime.strptime(v, "%Y-%m-%dT%H:%M:%SZ")\<close>. The library function at this fixed format
  is the parameter \<open>strptime\<close>: \<open>None\<close> where it raises ValueError, otherwise the datetime,
  a value of a linearly ordered type. A value that is not a string is a TypeError.
\<close>

fun parse_starred_at :: "(string \<Rightarrow> 't option) \<Rightarrow> json \<Rightarrow> py_error + 't" where
  "parse_starred_at strptime (JString s) =
     (case strptime s of None \<Rightarrow> Inl ValueError | Some t \<Rightarrow> Inr t)"
| "parse_starred_at strptime _ = Inl TypeError"

definition item_starred_at :: "(string \<Rightarrow> 't option) \<Rightarrow> json \<Rightarrow> py_error + 't" where
  "item_starred_at strptime item =
     (case getitem_starred_at item of
        Inl e \<Rightarrow> Inl e
      | Inr v \<Rightarrow> parse_starred_at strptime v)"

text \<open>\<open>str(n)\<close> for the integers the script prints.\<close>

fun str_nat :: "nat \<Rightarrow> string" where
  "str_nat n =
     (if n < 10 then [''0123456789'' ! n]
      else str_nat (n div 10) @ [''0123456789'' ! (n mod 10)])"

declare str_nat.simps [simp del]

definition str_int :: "int \<Rightarrow> string" where
  "str_int i = (if i < 0 then CHR ''-'' # str_nat (nat (- i)) else str_nat (nat i))"

text \<open>\<open>s.split(sep)\<close> for a one-character separator.\<close>

fun split_on :: "char \<Rightarrow> string \<Rightarrow> string list" where
  "split_on sep [] = [[]]"
| "split_on sep (c # cs) =
     (if c = sep then [] # split_on sep cs
      else (case split_on sep cs of
              [] \<Rightarrow> [[c]]
            | piece # pieces \<Rightarrow> (c # piece) # pieces))"

text \<open>\<open>str(path)\<close>: the components joined by a slash.\<close>

fun path_str :: "path \<Rightarrow> string" where
  "path_str [] = ''.''"
| "path_str [c] = c"
| "path_str (c # cs) = c @ ''/'' @ path_str cs"

subsection \<open>The world: network, console, file system\<close>

record request =
  url :: string
  headers :: "(string \<times> string) list"
  params :: "(string \<times> nat) list"

record response =
  status_code :: int
  text_body :: string
    \<comment> \<open>\<open>response.text\<close>\<close>
  json_body :: "json option"
    \<comment> \<open>\<open>response.json()\<close>; \<open>None\<close> where the body is not valid JSON and the call raises\<close>

text \<open>The remote API: its answer to a request may depend on every request sent before.\<close>

type_synonym server = "request list \<Rightarrow> request \<Rightarrow> response"

record 't plot_line =
  label :: string
  color :: string
  linewidth :: nat
  xdata :: "'t list"
  ydata :: "int list"

record 't figure =
  plot_lines :: "'t plot_line list"
  yscale :: string
  xlabel :: string
  ylabel :: string
  title :: string

datatype 't content =
    Svg "'t figure" nat
    \<comment> \<open>a figure saved with \<open>format='svg'\<close> at the given dpi\<close>
  | Bytes string
    \<comment> \<open>any other file\<close>

record 't world =
  sent :: "request list"
  stdout :: "string list"
  dirs :: "path set"
  files :: "path \<rightharpoonup> 't content"

definition py_print :: "string \<Rightarrow> 't world \<Rightarrow> 't world" where
  "py_print s w = w\<lparr>stdout := stdout w @ [s]\<rparr>"

text \<open>\<open>requests.get(url, headers=headers, params=params)\<close>: the request is recorded and the
  server answers knowing the requests before it.\<close>

definition requests_get ::
  "server \<Rightarrow> request \<Rightarrow> 't world \<Rightarrow> response \<times> 't world" where
  "requests_get srv req w = (srv (sent w) req, w\<lparr>sent := sent w @ [req]\<rparr>)"

text \<open>\<open>p.mkdir(parents=True, exist_ok=True)\<close>: the directory and every missing ancestor.\<close>

definition mkdir_parents :: "path \<Rightarrow> 't world \<Rightarrow> 't world" where
  "mkdir_parents p w = w\<lparr>dirs := dirs w \<union> set (map (\<lambda>n. take n p) [1..<Suc (length p)])\<rparr>"

text \<open>\<open>plt.savefig(p, format='svg', dpi=d)\<close>: the file holds the figure, whatever it held.\<close>

definition savefig :: "path \<Rightarrow> 't figure \<Rightarrow> nat \<Rightarrow> 't world \<Rightarrow> 't world" where
  "savefig p fig d w = w\<lparr>files := (files w)(p \<mapsto> Svg fig d)\<rparr>"

subsection \<open>\<open>get_star_history\<close> (lines 48 to 102)\<close>

definition stargazers_url :: "string \<Rightarrow> string \<Rightarrow> string" where
  "stargazers_url owner name =
     ''https://api.github.com/repos/'' @ owner @ ''/'' @ name @ ''/stargazers''"

text \<open>Lines 56 to 60. \<open>GITHUB_TOKEN\<close> is \<open>os.environ.get("GITHUB_TOKEN")\<close>: \<open>None\<close> when the
  variable is unset; \<open>if GITHUB_TOKEN\<close> is false for \<open>None\<close> and for the empty string.\<close>

definition token_set :: "string option \<Rightarrow> bool" where
  "token_set GITHUB_TOKEN = (case GITHUB_TOKEN of None \<Rightarrow> False | Some t \<Rightarrow> t \<noteq> [])"

definition request_headers :: "string option \<Rightarrow> (string \<times> string) list" where
  "request_headers GITHUB_TOKEN =
     (let headers = [(''Accept'', ''application/vnd.github.v3.star+json'')]
      in if token_set GITHUB_TOKEN
         then AList.update ''Authorization'' (''token '' @ the GITHUB_TOKEN) headers
         else headers)"

definition page_request :: "string \<Rightarrow> (string \<times> string) list \<Rightarrow> nat \<Rightarrow> request" where
  "page_request u hs page =
     \<lparr>url = u, headers = hs, params = [(''page'', page), (''per_page'', PER_PAGE)]\<rparr>"

text \<open>Lines 80 to 82: every item's timestamp is appended to \<open>stars\<close>; the first item that
  raises ends the loop.\<close>

fun append_starred :: "(string \<Rightarrow> 't option) \<Rightarrow> json list \<Rightarrow> 't list \<Rightarrow> py_error + 't list" where
  "append_starred strptime [] stars = Inr stars"
| "append_starred strptime (item # items) stars =
     (case item_starred_at strptime item of
        Inl e \<Rightarrow> Inl e
      | Inr starred_at \<Rightarrow> append_starred strptime items (stars @ [starred_at]))"

text \<open>One pass through the body of \<open>while True\<close> (lines 68 to 95): it raises, breaks or goes
  on to the next page.\<close>

datatype 't flow =
    Raise py_error "'t world"
  | Break "'t list" "'t world"
  | Continue "'t list" "'t world"

definition fetch_page ::
  "(string \<Rightarrow> 't option) \<Rightarrow> server \<Rightarrow> string \<Rightarrow> string \<Rightarrow> (string \<times> string) list \<Rightarrow>
   nat \<Rightarrow> 't list \<Rightarrow> 't world \<Rightarrow> 't flow" where
  "fetch_page strptime srv repo u hs page stars w =
     (case requests_get srv (page_request u hs page) w of
        (response, w1) \<Rightarrow>
          if status_code response \<noteq> 200 then
            Break stars
              (py_print (''Response: '' @ text_body response)
                (py_print (''Error fetching data for '' @ repo @ '': ''
                           @ str_int (status_code response)) w1))
          else
            (case json_body response of
               None \<Rightarrow> Raise JSONDecodeError w1
             | Some data \<Rightarrow>
                 if \<not> truthy data then Break stars w1
                 else
                   (case py_iter data of
                      Inl e \<Rightarrow> Raise e w1
                    | Inr items \<Rightarrow>
                        (case append_starred strptime items stars of
                           Inl e \<Rightarrow> Raise e w1
                         | Inr stars' \<Rightarrow>
                             (case py_len data of
                                Inl e \<Rightarrow> Raise e w1
                              | Inr n \<Rightarrow>
                                  let w2 = py_print (''  Fetched page '' @ str_nat page @ '' (''
                                                     @ str_nat n @ '' stars)'') w1
                                  in if n < PER_PAGE then Break stars' w2
                                     else if page + 1 > MAX_PAGES then
                                       Break stars'
                                         (py_print (''  Reached maximum page limit for '' @ repo) w2)
                                     else Continue stars' w2)))))"

function fetch_pages ::
  "(string \<Rightarrow> 't option) \<Rightarrow> server \<Rightarrow> string \<Rightarrow> string \<Rightarrow> (string \<times> string) list \<Rightarrow>
   nat \<Rightarrow> 't list \<Rightarrow> 't world \<Rightarrow> (py_error + 't list) \<times> 't world" where
  "fetch_pages strptime srv repo u hs page stars w =
     (case fetch_page strptime srv repo u hs page stars w of
        Raise e w' \<Rightarrow> (Inl e, w')
      | Break stars' w' \<Rightarrow> (Inr stars', w')
      | Continue stars' w' \<Rightarrow> fetch_pages strptime srv repo u hs (page + 1) stars' w')"
  by pat_completeness auto
termination
  by (relation "measure (\<lambda>(strptime, srv, repo, u, hs, page, stars, w). MAX_PAGES - page)")
     (auto simp: fetch_page_def requests_get_def Let_def
           split: if_splits option.splits sum.splits)

declare fetch_pages.simps [simp del]

text \<open>Lines 53 to 95: the collection phase, which ends with the local list \<open>stars\<close>.\<close>

definition collect_stars ::
  "(string \<Rightarrow> 't option) \<Rightarrow> server \<Rightarrow> string option \<Rightarrow> string \<Rightarrow> 't world \<Rightarrow>
   (py_error + 't list) \<times> 't world" where
  "collect_stars strptime srv GITHUB_TOKEN repo w =
     (case split_on CHR ''/'' repo of
        [owner, name] \<Rightarrow>
          fetch_pages strptime srv repo (stargazers_url owner name)
            (request_headers GITHUB_TOKEN) 1 []
            (py_print (''Fetching star data for '' @ repo @ ''...'') w)
      | _ \<Rightarrow> (Inl ValueError, w))"

text \<open>Lines 98 and 99: sort, then number from one.\<close>

definition cumulative :: "('t::linorder) list \<Rightarrow> ('t \<times> int) list" where
  "cumulative stars = map (\<lambda>(idx, date). (date, int idx + 1)) (enumerate 0 (sort stars))"

definition get_star_history ::
  "(string \<Rightarrow> ('t::linorder) option) \<Rightarrow> server \<Rightarrow> string option \<Rightarrow> string \<Rightarrow> 't world \<Rightarrow>
   (py_error + ('t \<times> int) list) \<times> 't world" where
  "get_star_history strptime srv GITHUB_TOKEN repo w =
     (case collect_stars strptime srv GITHUB_TOKEN repo w of
        (Inl e, w') \<Rightarrow> (Inl e, w')
      | (Inr stars, w') \<Rightarrow>
          (Inr (cumulative stars),
           py_print (''  Total stars: '' @ str_nat (length stars)) w'))"

subsection \<open>\<open>generate_chart\<close> (lines 105 to 152)\<close>

text \<open>Lines 113 to 122: the loop over \<open>enumerate(repo_data.items())\<close>. The mapping is a dict,
  which keeps insertion order: an association list. A plotted line is kept with its label,
  its colour, its width and its data; a figure with its lines, the scale of the y axis, the
  axis labels and the title. Markers, ticks, grid and legend placement are not modelled.\<close>

fun plot_repos ::
  "(nat \<times> string \<times> ('t \<times> int) list) list \<Rightarrow> 't plot_line list \<Rightarrow> 't plot_line list" where
  "plot_repos [] ax = ax"
| "plot_repos ((idx, repo, data) # rest) ax =
     (if data = [] then plot_repos rest ax
      else plot_repos rest
             (ax @ [\<lparr>label = repo, color = COLORS ! (idx mod length COLORS), linewidth = 2,
                      xdata = map fst data, ydata = map snd data\<rparr>]))"

definition chart :: "(string \<times> ('t \<times> int) list) list \<Rightarrow> 't figure" where
  "chart repo_data =
     \<lparr>plot_lines = plot_repos (enumerate 0 repo_data) [],
      yscale = ''log'',
      xlabel = ''Date'',
      ylabel = ''Stars (log scale)'',
      title = ''GitHub Star History''\<rparr>"

definition generate_chart :: "(string \<times> ('t \<times> int) list) list \<Rightarrow> 't world \<Rightarrow> 't world" where
  "generate_chart repo_data w =
     py_print (CHR 0x0A # ''Chart saved to '' @ path_str OUTPUT_FILE)
       (savefig OUTPUT_FILE (chart repo_data) CHART_DPI
         (mkdir_parents OUTPUT_DIR w))"

subsection \<open>\<open>main\<close> (lines 155 to 174)\<close>

text \<open>Lines 162 to 165. \<open>repo_data[repo] = data\<close> replaces the value of a key already there
  and appends a new key otherwise.\<close>

fun fetch_repos ::
  "(string \<Rightarrow> ('t::linorder) option) \<Rightarrow> server \<Rightarrow> string option \<Rightarrow> string list \<Rightarrow>
   (string \<times> ('t \<times> int) list) list \<Rightarrow> 't world \<Rightarrow>
   (py_error + (string \<times> ('t \<times> int) list) list) \<times> 't world" where
  "fetch_repos strptime srv GITHUB_TOKEN [] repo_data w = (Inr repo_data, w)"
| "fetch_repos strptime srv GITHUB_TOKEN (repo # repos) repo_data w =
     (case get_star_history strptime srv GITHUB_TOKEN repo w of
        (Inl e, w') \<Rightarrow> (Inl e, w')
      | (Inr data, w') \<Rightarrow>
          fetch_repos strptime srv GITHUB_TOKEN repos (AList.update repo data repo_data) w')"

text \<open>Lines 157 to 159.\<close>

definition warn_token :: "string option \<Rightarrow> 't world \<Rightarrow> 't world" where
  "warn_token GITHUB_TOKEN w =
     (if \<not> token_set GITHUB_TOKEN then
        py_print ''Set GITHUB_TOKEN environment variable for better rate limits.''
          (py_print ''Warning: GITHUB_TOKEN not set. API rate limits will be restrictive.'' w)
      else w)"

text \<open>\<open>any(repo_data.values())\<close>: some series is not empty.\<close>

definition any_values :: "(string \<times> 'a list) list \<Rightarrow> bool" where
  "any_values repo_data = list_ex (\<lambda>kv. snd kv \<noteq> []) repo_data"

definition main ::
  "(string \<Rightarrow> ('t::linorder) option) \<Rightarrow> server \<Rightarrow> string option \<Rightarrow> 't world \<Rightarrow>
   (py_error + int) \<times> 't world" where
  "main strptime srv GITHUB_TOKEN w =
     (case fetch_repos strptime srv GITHUB_TOKEN REPOS [] (warn_token GITHUB_TOKEN w) of
        (Inl e, w') \<Rightarrow> (Inl e, w')
      | (Inr repo_data, w') \<Rightarrow>
          if any_values repo_data then
            (Inr 0,
             py_print (CHR 0x0A # ''Star history chart generated successfully!'')
               (generate_chart repo_data w'))
          else
            (Inr 1,
             py_print (CHR 0x0A # ''Error: No data fetched for any repository.'') w'))"

text \<open>Lines 177 and 178, \<open>sys.exit(main())\<close>: the value \<open>main\<close> returns is the exit code of
  the process; an exception that nothing catches ends the interpreter with exit code 1.\<close>

definition process_exit_code :: "py_error + int \<Rightarrow> int" where
  "process_exit_code outcome = (case outcome of Inl e \<Rightarrow> 1 | Inr code \<Rightarrow> code)"

subsection \<open>Vocabulary for the claims\<close>

text \<open>The answer to the request for page \<open>p\<close> in a pagination that starts when \<open>history\<close>
  has been sent: by then the pages before \<open>p\<close> have been requested too. The server may
  answer the same request differently at another time.\<close>

definition page_response ::
  "server \<Rightarrow> request list \<Rightarrow> string \<Rightarrow> (string \<times> string) list \<Rightarrow> nat \<Rightarrow> response" where
  "page_response srv history u hs p =
     srv (history @ map (page_request u hs) [1..<p]) (page_request u hs p)"

text \<open>A successful page response: status 200 and a JSON list whose items all carry a
  \<open>starred_at\<close> that \<open>strptime\<close> accepts. \<open>page_stars\<close> gives the timestamps of such a page, in
  the order of the items, and \<open>None\<close> for any other response.\<close>

definition page_stars :: "(string \<Rightarrow> 't option) \<Rightarrow> response \<Rightarrow> 't list option" where
  "page_stars strptime r =
     (if status_code r = 200 then
        (case json_body r of
           Some (JArray items) \<Rightarrow>
             (case append_starred strptime items [] of
                Inl e \<Rightarrow> None
              | Inr ts \<Rightarrow> Some ts)
         | _ \<Rightarrow> None)
      else None)"

text \<open>The response to the \<open>j\<close>-th request of a run, read off the requests the run has sent:
  every request is answered knowing exactly the requests before it.\<close>

definition received :: "server \<Rightarrow> request list \<Rightarrow> nat \<Rightarrow> response" where
  "received srv trace j = srv (take j trace) (trace ! j)"

text \<open>An item without a \<open>starred_at\<close> field: a record that lacks the key, or anything that is
  not a record. An item whose \<open>starred_at\<close> is not a string that \<open>strptime\<close> accepts.\<close>

definition lacks_starred_at :: "json \<Rightarrow> bool" where
  "lacks_starred_at item =
     (case item of JObject kvs \<Rightarrow> map_of kvs ''starred_at'' = None | _ \<Rightarrow> True)"

definition bad_starred_at :: "(string \<Rightarrow> 't option) \<Rightarrow> json \<Rightarrow> bool" where
  "bad_starred_at strptime item =
     (case item of
        JObject kvs \<Rightarrow>
          (case map_of kvs ''starred_at'' of
             None \<Rightarrow> False
           | Some (JString s) \<Rightarrow> strptime s = None
           | Some _ \<Rightarrow> True)
      | _ \<Rightarrow> False)"

text \<open>A malformed successful page: status 200 and a body that is not valid JSON, or a decoded
  body that is true but cannot be iterated, or one that yields an item without \<open>starred_at\<close>
  or with a \<open>starred_at\<close> that does not parse.\<close>

definition malformed_page :: "(string \<Rightarrow> 't option) \<Rightarrow> response \<Rightarrow> bool" where
  "malformed_page strptime r =
     (status_code r = 200 \<and>
      (case json_body r of
         None \<Rightarrow> True
       | Some data \<Rightarrow>
           truthy data \<and>
           (case py_iter data of
              Inl e \<Rightarrow> True
            | Inr items \<Rightarrow>
                list_ex (\<lambda>item. lacks_starred_at item \<or> bad_starred_at strptime item) items)))"

text \<open>The worlds in which the successive calls of \<open>get_star_history\<close> in lines 163 to 165
  start: each call starts in the world the call before it has left.\<close>

fun fetch_worlds ::
  "(string \<Rightarrow> ('t::linorder) option) \<Rightarrow> server \<Rightarrow> string option \<Rightarrow> string list \<Rightarrow>
   't world \<Rightarrow> 't world list" where
  "fetch_worlds strptime srv GITHUB_TOKEN [] w = []"
| "fetch_worlds strptime srv GITHUB_TOKEN (repo # repos) w =
     w # fetch_worlds strptime srv GITHUB_TOKEN repos
           (snd (get_star_history strptime srv GITHUB_TOKEN repo w))"

subsection \<open>Concrete runs\<close>

text \<open>A \<open>strptime\<close> that knows three days, numbered 1 to 3, and rejects everything else;
  a stargazer record as the endpoint lists it; two responses; a world in which nothing
  has happened yet.\<close>

definition day_strptime :: "string \<Rightarrow> nat option" where
  "day_strptime =
     map_of [(''2024-01-01T00:00:00Z'', 1),
             (''2024-01-02T00:00:00Z'', 2),
             (''2024-01-03T00:00:00Z'', 3)]"

definition star :: "string \<Rightarrow> json" where
  "star s = JObject [(''starred_at'', JString s),
                     (''user'', JObject [(''login'', JString ''octocat'')])]"

definition ok_response :: "json \<Rightarrow> response" where
  "ok_response data = \<lparr>status_code = 200, text_body = [], json_body = Some data\<rparr>"

definition not_found :: response where
  "not_found =
     \<lparr>status_code = 404, text_body = ''Not Found'',
      json_body = Some (JObject [(''message'', JString ''Not Found'')])\<rparr>"

definition fresh_world :: "nat world" where
  "fresh_world = \<lparr>sent = [], stdout = [], dirs = {}, files = Map.empty\<rparr>"

text \<open>A server whose every page holds the same three stars, out of order.\<close>

definition three_stars_server :: server where
  "three_stars_server history req =
     ok_response (JArray [star ''2024-01-02T00:00:00Z'',
                          star ''2024-01-01T00:00:00Z'',
                          star ''2024-01-03T00:00:00Z''])"

text \<open>A server whose first page is full (a hundred stars of day 1) and whose every other
  page fails.\<close>

definition one_full_page_server :: server where
  "one_full_page_server history req =
     (if params req = [(''page'', 1), (''per_page'', 100)]
      then ok_response (JArray (replicate 100 (star ''2024-01-01T00:00:00Z'')))
      else not_found)"

text \<open>A server that knows one repository only, with the three stars on every page.\<close>

definition pyclean_only_server :: server where
  "pyclean_only_server history req =
     (if url req = ''https://api.github.com/repos/bittner/pyclean/stargazers''
      then three_stars_server history req
      else not_found)"

text \<open>The mapping the driver builds against that server.\<close>

definition pyclean_only_data :: "(string \<times> (nat \<times> int) list) list" where
  "pyclean_only_data =
     [(''bittner/pyclean'', [(1, 1), (2, 2), (3, 3)]),
      (''painless-software/python-cli-test-helpers'', []),
      (''painless-software/django-probes'', []),
      (''behave/behave-django'', []),
      (''jazzband/django-analytical'', []),
      (''behave/behave'', [])]"

text \<open>A world with an older file where the chart goes.\<close>

definition stale_world :: "nat world" where
  "stale_world =
     \<lparr>sent = [], stdout = [], dirs = {OUTPUT_DIR},
      files = [OUTPUT_FILE \<mapsto> Bytes ''an older chart'']\<rparr>"

text \<open>A mapping of three repositories with data.\<close>

definition three_repos :: "(string \<times> (nat \<times> int) list) list" where
  "three_repos =
     [(''bittner/pyclean'', [(1, 1), (2, 2)]),
      (''behave/behave-django'', [(1, 1)]),
      (''behave/behave'', [(2, 1), (3, 2)])]"

text \<open>A server whose every page holds 101 stars of day 1, one more than asked for.\<close>

definition oversize_server :: server where
  "oversize_server history req =
     ok_response (JArray (replicate 101 (star ''2024-01-01T00:00:00Z'')))"

text \<open>A server with a full first page, the three stars on the second page, and no other
  page.\<close>

definition two_page_server :: server where
  "two_page_server history req =
     (if params req = [(''page'', 1), (''per_page'', 100)]
      then ok_response (JArray (replicate 100 (star ''2024-01-01T00:00:00Z'')))
      else if params req = [(''page'', 2), (''per_page'', 100)]
      then ok_response (JArray [star ''2024-01-02T00:00:00Z'',
                                star ''2024-01-01T00:00:00Z'',
                                star ''2024-01-03T00:00:00Z''])
      else not_found)"

text \<open>A rate limit: the first request ever is answered with the three stars, every later
  one is refused.\<close>

definition forbidden :: response where
  "forbidden =
     \<lparr>status_code = 403, text_body = ''rate limit exceeded'',
      json_body = Some (JObject [(''message'', JString ''rate limit exceeded'')])\<rparr>"

definition rate_limited_server :: server where
  "rate_limited_server history req =
     (if history = [] then three_stars_server history req else forbidden)"

text \<open>A server that answers the first request ever with the three stars and every later
  one with status 200 and a page of HTML.\<close>

definition html_page :: response where
  "html_page = \<lparr>status_code = 200, text_body = ''<html></html>'', json_body = None\<rparr>"

definition html_after_first_server :: server where
  "html_after_first_server history req =
     (if history = [] then three_stars_server history req else html_page)"

text \<open>A server that knows no repository.\<close>

definition not_found_server :: server where
  "not_found_server history req = not_found"

section \<open>Properties\<close>

subsection \<open>The cumulative series\<close>

lemma map_count_enumerate:
  "map (\<lambda>(idx, date). int idx + 1) (enumerate n xs) = [int n + 1..int n + int (length xs)]"
proof (induction xs arbitrary: n)
  case Nil
  then show ?case by simp
next
  case (Cons x xs)
  have "[int n + 1..int n + int (length (x # xs))] = (int n + 1) # [int (Suc n) + 1..int (Suc n) + int (length xs)]"
    by (subst upto_rec1) (simp_all add: add.commute add.left_commute)
  with Cons.IH [of "Suc n"] show ?case by simp
qed

lemma cumulative_counts: "map snd (cumulative stars) = [1..int (length stars)]"
  using map_count_enumerate [of 0 "sort stars"]
  by (simp add: cumulative_def comp_def case_prod_unfold)

lemma cumulative_dates: "map fst (cumulative stars) = sort stars"
  by (simp add: cumulative_def comp_def case_prod_unfold)

lemma cumulative_length: "length (cumulative stars) = length stars"
  by (simp add: cumulative_def)

lemma cumulative_mset: "mset (map fst (cumulative stars)) = mset stars"
  by (simp only: cumulative_dates mset_sort)

lemma cumulative_sorted: "sorted (map fst (cumulative stars))"
  by (simp only: cumulative_dates sorted_sort)

lemma cumulative_three:
  "T1 < T2 \<Longrightarrow> T2 < T3 \<Longrightarrow> cumulative [T2, T1, T3] = [(T1, 1), (T2, 2), (T3, 3)]"
  by (auto simp: cumulative_def)

subsection \<open>One page\<close>

lemma append_starred_acc:
  "append_starred strptime items stars =
     (case append_starred strptime items [] of Inl e \<Rightarrow> Inl e | Inr ts \<Rightarrow> Inr (stars @ ts))"
proof (induction items arbitrary: stars)
  case Nil
  then show ?case by simp
next
  case (Cons item items)
  show ?case
  proof (cases "item_starred_at strptime item")
    case (Inl e)
    then show ?thesis by simp
  next
    case (Inr t)
    have "append_starred strptime (item # items) stars = append_starred strptime items (stars @ [t])"
      using Inr by simp
    also have "\<dots> = (case append_starred strptime items [] of
                       Inl e \<Rightarrow> Inl e | Inr ts \<Rightarrow> Inr ((stars @ [t]) @ ts))"
      by (rule Cons.IH)
    finally show ?thesis
      using Inr Cons.IH [of "[t]"] by (simp split: sum.splits)
  qed
qed

lemma append_starred_length:
  "append_starred strptime items [] = Inr ts \<Longrightarrow> length ts = length items"
proof (induction items arbitrary: ts)
  case Nil
  then show ?case by simp
next
  case (Cons item items)
  then show ?case
    by (auto simp: append_starred_acc [of _ _ "[_]"] split: sum.splits)
qed

lemma append_starred_bad:
  "item \<in> set items \<Longrightarrow> item_starred_at strptime item = Inl e \<Longrightarrow>
   \<exists>e'. append_starred strptime items stars = Inl e'"
  by (induction items arbitrary: stars) (auto split: sum.splits)

lemma page_starsD:
  assumes "page_stars strptime r = Some ts"
  shows "status_code r = 200"
    and "\<exists>items. json_body r = Some (JArray items) \<and> append_starred strptime items [] = Inr ts
           \<and> length items = length ts"
  using assms
  by (auto simp: page_stars_def append_starred_length split: if_splits option.splits json.splits sum.splits)

text \<open>What one pass of the loop does, by the response it gets.\<close>

lemma fetch_page_failed:
  assumes "status_code (srv (sent w) (page_request u hs page)) \<noteq> 200"
  shows "fetch_page strptime srv repo u hs page stars w =
           Break stars
             (py_print (''Response: '' @ text_body (srv (sent w) (page_request u hs page)))
               (py_print (''Error fetching data for '' @ repo @ '': ''
                          @ str_int (status_code (srv (sent w) (page_request u hs page))))
                 (w\<lparr>sent := sent w @ [page_request u hs page]\<rparr>)))"
  using assms by (simp add: fetch_page_def requests_get_def)

lemma fetch_page_full:
  assumes "page_stars strptime (srv (sent w) (page_request u hs page)) = Some ts"
    and "PER_PAGE \<le> length ts" and "page < MAX_PAGES"
  shows "fetch_page strptime srv repo u hs page stars w =
           Continue (stars @ ts)
             (py_print (''  Fetched page '' @ str_nat page @ '' ('' @ str_nat (length ts) @ '' stars)'')
               (w\<lparr>sent := sent w @ [page_request u hs page]\<rparr>))"
proof -
  from page_starsD [OF assms(1)] obtain items where
    "status_code (srv (sent w) (page_request u hs page)) = 200"
    "json_body (srv (sent w) (page_request u hs page)) = Some (JArray items)"
    "append_starred strptime items [] = Inr ts" "length items = length ts"
    by blast
  moreover have "items \<noteq> []" using \<open>length items = length ts\<close> assms(2) by (auto simp: PER_PAGE_def)
  ultimately show ?thesis
    using assms(2,3)
    by (simp add: fetch_page_def requests_get_def append_starred_acc [of _ _ stars] Let_def)
qed

lemma fetch_page_cap:
  assumes "page_stars strptime (srv (sent w) (page_request u hs page)) = Some ts"
    and "PER_PAGE \<le> length ts" and "MAX_PAGES \<le> page"
  shows "fetch_page strptime srv repo u hs page stars w =
           Break (stars @ ts)
             (py_print (''  Reached maximum page limit for '' @ repo)
               (py_print (''  Fetched page '' @ str_nat page @ '' ('' @ str_nat (length ts) @ '' stars)'')
                 (w\<lparr>sent := sent w @ [page_request u hs page]\<rparr>)))"
proof -
  from page_starsD [OF assms(1)] obtain items where
    "status_code (srv (sent w) (page_request u hs page)) = 200"
    "json_body (srv (sent w) (page_request u hs page)) = Some (JArray items)"
    "append_starred strptime items [] = Inr ts" "length items = length ts"
    by blast
  moreover have "items \<noteq> []" using \<open>length items = length ts\<close> assms(2) by (auto simp: PER_PAGE_def)
  ultimately show ?thesis
    using assms(2,3)
    by (simp add: fetch_page_def requests_get_def append_starred_acc [of _ _ stars] Let_def)
qed

lemma fetch_page_short:
  assumes "page_stars strptime (srv (sent w) (page_request u hs page)) = Some ts"
    and "length ts < PER_PAGE"
  shows "\<exists>w'. fetch_page strptime srv repo u hs page stars w = Break (stars @ ts) w'
           \<and> sent w' = sent w @ [page_request u hs page]
           \<and> (\<exists>ls. stdout w' = stdout w @ ls) \<and> dirs w' = dirs w \<and> files w' = files w"
proof -
  from page_starsD [OF assms(1)] obtain items where
    "status_code (srv (sent w) (page_request u hs page)) = 200"
    "json_body (srv (sent w) (page_request u hs page)) = Some (JArray items)"
    "append_starred strptime items [] = Inr ts" "length items = length ts"
    by blast
  then show ?thesis
    using assms(2)
    by (cases "items = []")
       (auto simp add: fetch_page_def requests_get_def append_starred_acc [of _ _ stars] Let_def py_print_def)
qed

lemma fetch_page_raises:
  assumes "status_code (srv (sent w) (page_request u hs page)) = 200"
    and "json_body (srv (sent w) (page_request u hs page)) = None
         \<or> (\<exists>items item e. json_body (srv (sent w) (page_request u hs page)) = Some (JArray items)
               \<and> item \<in> set items \<and> item_starred_at strptime item = Inl e)"
  shows "\<exists>e. fetch_page strptime srv repo u hs page stars w =
           Raise e (w\<lparr>sent := sent w @ [page_request u hs page]\<rparr>)"
  using assms(2)
proof
  assume "json_body (srv (sent w) (page_request u hs page)) = None"
  then show ?thesis using assms(1) by (simp add: fetch_page_def requests_get_def)
next
  assume "\<exists>items item e. json_body (srv (sent w) (page_request u hs page)) = Some (JArray items)
               \<and> item \<in> set items \<and> item_starred_at strptime item = Inl e"
  then obtain items item e where
    j: "json_body (srv (sent w) (page_request u hs page)) = Some (JArray items)"
    and "item \<in> set items" "item_starred_at strptime item = Inl e"
    by blast
  then obtain e' where "append_starred strptime items stars = Inl e'"
    using append_starred_bad by blast
  moreover have "items \<noteq> []" using \<open>item \<in> set items\<close> by auto
  ultimately show ?thesis
    using assms(1) j by (simp add: fetch_page_def requests_get_def)
qed

text \<open>Whatever the response, a pass sends exactly one request and leaves the file system alone.\<close>

lemma fetch_page_world:
  "(case fetch_page strptime srv repo u hs page stars w of
      Raise e w' \<Rightarrow> sent w' = sent w @ [page_request u hs page] \<and> dirs w' = dirs w \<and> files w' = files w
                    \<and> (\<exists>ls. stdout w' = stdout w @ ls)
    | Break s w' \<Rightarrow> sent w' = sent w @ [page_request u hs page] \<and> dirs w' = dirs w \<and> files w' = files w
                    \<and> (\<exists>ls. stdout w' = stdout w @ ls)
    | Continue s w' \<Rightarrow> sent w' = sent w @ [page_request u hs page] \<and> dirs w' = dirs w \<and> files w' = files w
                    \<and> (\<exists>ls. stdout w' = stdout w @ ls) \<and> page < MAX_PAGES)"
  by (auto simp: fetch_page_def requests_get_def py_print_def Let_def
           split: option.splits sum.splits)

subsection \<open>The pagination loop\<close>

lemma fetch_pages_trace:
  "fetch_pages strptime srv repo u hs page stars w = (res, w') \<Longrightarrow>
   \<exists>n. 1 \<le> n \<and> n \<le> Suc (MAX_PAGES - page)
      \<and> sent w' = sent w @ map (page_request u hs) [page..<page + n]
      \<and> dirs w' = dirs w \<and> files w' = files w \<and> (\<exists>ls. stdout w' = stdout w @ ls)"
proof (induction strptime srv repo u hs page stars w arbitrary: res w' rule: fetch_pages.induct)
  case (1 strptime srv repo u hs page stars w)
  note step = fetch_page_world [where strptime=strptime and srv=srv and repo=repo and u=u and hs=hs and page=page and stars=stars and w=w]
  show ?case
  proof (cases "fetch_page strptime srv repo u hs page stars w")
    case (Raise e w1)
    with "1.prems" step have "sent w' = sent w @ map (page_request u hs) [page..<page + 1]"
      "dirs w' = dirs w" "files w' = files w" "\<exists>ls. stdout w' = stdout w @ ls"
      by (auto simp: fetch_pages.simps [of strptime srv repo u hs page])
    then show ?thesis by (intro exI [of _ 1]) simp
  next
    case (Break s w1)
    with "1.prems" step have "sent w' = sent w @ map (page_request u hs) [page..<page + 1]"
      "dirs w' = dirs w" "files w' = files w" "\<exists>ls. stdout w' = stdout w @ ls"
      by (auto simp: fetch_pages.simps [of strptime srv repo u hs page])
    then show ?thesis by (intro exI [of _ 1]) simp
  next
    case (Continue s w1)
    with step have w1: "sent w1 = sent w @ [page_request u hs page]" "dirs w1 = dirs w"
      "files w1 = files w" "\<exists>ls. stdout w1 = stdout w @ ls" "page < MAX_PAGES"
      by auto
    from Continue "1.prems" have "fetch_pages strptime srv repo u hs (page + 1) s w1 = (res, w')"
      by (simp add: fetch_pages.simps [of strptime srv repo u hs page])
    from "1.IH" [OF Continue this] obtain n where n: "1 \<le> n" "n \<le> Suc (MAX_PAGES - (page + 1))"
      "sent w' = sent w1 @ map (page_request u hs) [page + 1..<page + 1 + n]"
      "dirs w' = dirs w1" "files w' = files w1" "\<exists>ls. stdout w' = stdout w1 @ ls"
      by blast
    have "[page..<page + Suc n] = page # [page + 1..<page + 1 + n]"
      by (simp add: upt_rec)
    then have "sent w' = sent w @ map (page_request u hs) [page..<page + Suc n]"
      using n(3) w1(1) by simp
    moreover have "Suc n \<le> Suc (MAX_PAGES - page)" using n(2) w1(5) by simp
    moreover have "\<exists>ls. stdout w' = stdout w @ ls" using n(6) w1(4) by auto
    ultimately show ?thesis
      using n(4,5) w1(2,3) by (intro exI [of _ "Suc n"]) simp
  qed
qed

text \<open>After \<open>k\<close> full pages in a row the loop stands at page \<open>page + k\<close>.\<close>

lemma upt_from_Suc: "page < p \<Longrightarrow> [page..<p] = page # [Suc page..<p]"
  by (simp add: upt_rec)

lemma fetch_pages_full_prefix:
  assumes "\<forall>p. page \<le> p \<and> p < page + k \<longrightarrow>
             page_stars strptime (srv (sent w @ map (page_request u hs) [page..<p])
                                      (page_request u hs p)) = Some (ts p)
             \<and> PER_PAGE \<le> length (ts p)"
    and "page + k \<le> MAX_PAGES"
  shows "\<exists>w1. fetch_pages strptime srv repo u hs page stars w =
                fetch_pages strptime srv repo u hs (page + k)
                  (stars @ concat (map ts [page..<page + k])) w1
            \<and> sent w1 = sent w @ map (page_request u hs) [page..<page + k]
            \<and> (\<exists>ls. stdout w1 = stdout w @ ls)
            \<and> dirs w1 = dirs w \<and> files w1 = files w"
  using assms
proof (induction k arbitrary: page stars w)
  case 0
  show ?case by (intro exI [of _ w]) simp
next
  case (Suc k)
  from Suc.prems(1) have "page_stars strptime (srv (sent w @ map (page_request u hs) [page..<page])
                                      (page_request u hs page)) = Some (ts page)
             \<and> PER_PAGE \<le> length (ts page)"
  proof -
    have "page \<le> page \<and> page < page + Suc k" by simp
    with Suc.prems(1) show ?thesis by blast
  qed
  then have here: "page_stars strptime (srv (sent w) (page_request u hs page)) = Some (ts page)"
    "PER_PAGE \<le> length (ts page)"
    by simp_all
  have below: "page < MAX_PAGES" using Suc.prems(2) by simp
  from fetch_page_full [where srv=srv and w=w and strptime=strptime and u=u and hs=hs and page=page
      and ts="ts page" and stars=stars and repo=repo, OF here below]
  obtain w0 where step: "fetch_page strptime srv repo u hs page stars w = Continue (stars @ ts page) w0"
    and w0: "sent w0 = sent w @ [page_request u hs page]" "\<exists>ls. stdout w0 = stdout w @ ls"
      "dirs w0 = dirs w" "files w0 = files w"
    by (auto simp: py_print_def)
  have "\<forall>p. page + 1 \<le> p \<and> p < page + 1 + k \<longrightarrow>
             page_stars strptime (srv (sent w0 @ map (page_request u hs) [page + 1..<p])
                                      (page_request u hs p)) = Some (ts p)
             \<and> PER_PAGE \<le> length (ts p)"
  proof (intro allI impI)
    fix p
    assume p: "page + 1 \<le> p \<and> p < page + 1 + k"
    then have "page \<le> p \<and> p < page + Suc k" by simp
    with Suc.prems(1) have "page_stars strptime (srv (sent w @ map (page_request u hs) [page..<p])
                                      (page_request u hs p)) = Some (ts p)
             \<and> PER_PAGE \<le> length (ts p)"
      by blast
    moreover have "sent w @ map (page_request u hs) [page..<p]
                     = sent w0 @ map (page_request u hs) [page + 1..<p]"
      using p by (simp add: w0(1) upt_from_Suc)
    ultimately show "page_stars strptime (srv (sent w0 @ map (page_request u hs) [page + 1..<p])
                                      (page_request u hs p)) = Some (ts p)
             \<and> PER_PAGE \<le> length (ts p)"
      by simp
  qed
  moreover have "page + 1 + k \<le> MAX_PAGES" using Suc.prems(2) by simp
  ultimately obtain w1 where w1:
    "fetch_pages strptime srv repo u hs (page + 1) (stars @ ts page) w0 =
       fetch_pages strptime srv repo u hs (page + 1 + k)
         ((stars @ ts page) @ concat (map ts [page + 1..<page + 1 + k])) w1"
    "sent w1 = sent w0 @ map (page_request u hs) [page + 1..<page + 1 + k]"
    "\<exists>ls. stdout w1 = stdout w0 @ ls" "dirs w1 = dirs w0" "files w1 = files w0"
    using Suc.IH [of "page + 1" w0 "stars @ ts page"] by blast
  have upt: "[page..<page + Suc k] = page # [page + 1..<page + 1 + k]"
    by (simp add: upt_rec)
  have cat: "(stars @ ts page) @ concat (map ts [page + 1..<page + Suc k])
               = stars @ concat (map ts [page..<page + Suc k])"
    unfolding upt by simp
  have idx: "page + 1 + k = page + Suc k" by simp
  have "fetch_pages strptime srv repo u hs page stars w =
          fetch_pages strptime srv repo u hs (page + 1) (stars @ ts page) w0"
    using step by (simp add: fetch_pages.simps [of strptime srv repo u hs page])
  also note w1(1)
  finally have "fetch_pages strptime srv repo u hs page stars w =
      fetch_pages strptime srv repo u hs (page + Suc k)
        (stars @ concat (map ts [page..<page + Suc k])) w1"
    by (simp only: idx cat)
  moreover have "sent w1 = sent w @ map (page_request u hs) [page..<page + Suc k]"
    by (simp only: w1(2) w0(1) upt list.map append_Cons append_Nil append_assoc)
  moreover have "\<exists>ls. stdout w1 = stdout w @ ls" using w1(3) w0(2) by auto
  ultimately show ?case using w1(4,5) w0(3,4) by (intro exI [of _ w1]) simp
qed

lemma length_concat_bound:
  "(\<forall>x \<in> set xs. length (f x) \<le> c) \<Longrightarrow> length (concat (map f xs)) \<le> length xs * c"
  by (induction xs) (auto simp: add_mono)

text \<open>Successful answers on the pages the loop gets to: page \<open>p\<close> is requested only when
  every page before it was full.\<close>

lemma fetch_pages_requested:
  assumes script: "\<forall>p. page \<le> p \<and> p \<le> MAX_PAGES
                       \<and> (\<forall>q. page \<le> q \<and> q < p \<longrightarrow> PER_PAGE \<le> length (ts q)) \<longrightarrow>
             page_stars strptime (srv (sent w @ map (page_request u hs) [page..<p])
                                      (page_request u hs p)) = Some (ts p)"
    and le: "page \<le> MAX_PAGES"
  shows "\<exists>n w'. page \<le> n \<and> n \<le> MAX_PAGES
           \<and> (\<forall>p. page \<le> p \<and> p < n \<longrightarrow> PER_PAGE \<le> length (ts p))
           \<and> (length (ts n) < PER_PAGE \<or> n = MAX_PAGES)
           \<and> fetch_pages strptime srv repo u hs page stars w
               = (Inr (stars @ concat (map ts [page..<Suc n])), w')
           \<and> sent w' = sent w @ map (page_request u hs) [page..<Suc n]
           \<and> (\<exists>ls. stdout w' = stdout w @ ls) \<and> dirs w' = dirs w \<and> files w' = files w"
proof -
  define stop where "stop p \<longleftrightarrow> page \<le> p \<and> (length (ts p) < PER_PAGE \<or> p = MAX_PAGES)" for p
  define n where "n = (LEAST p. stop p)"
  have "stop MAX_PAGES" using le by (simp add: stop_def)
  then have n: "stop n" and n_le: "n \<le> MAX_PAGES"
    unfolding n_def by (auto intro: LeastI Least_le)
  have before: "\<not> stop p" if "p < n" for p
    using that not_less_Least unfolding n_def by blast
  have full: "PER_PAGE \<le> length (ts p)" if "page \<le> p" "p < n" for p
    using before [OF that(2)] that(1) by (auto simp: stop_def)
  have pn: "page \<le> n" using n by (simp add: stop_def)
  have answered: "page_stars strptime (srv (sent w @ map (page_request u hs) [page..<p])
                                      (page_request u hs p)) = Some (ts p)"
    if "page \<le> p" "p \<le> n" for p
  proof -
    have "\<forall>q. page \<le> q \<and> q < p \<longrightarrow> PER_PAGE \<le> length (ts q)"
      using full that(2) by auto
    moreover have "p \<le> MAX_PAGES" using that(2) n_le by simp
    ultimately show ?thesis using script that(1) by blast
  qed
  define k where "k = n - page"
  have nk: "page + k = n" using pn by (simp add: k_def)
  have "\<forall>p. page \<le> p \<and> p < page + k \<longrightarrow>
             page_stars strptime (srv (sent w @ map (page_request u hs) [page..<p])
                                      (page_request u hs p)) = Some (ts p)
             \<and> PER_PAGE \<le> length (ts p)"
    using answered full nk by auto
  moreover have "page + k \<le> MAX_PAGES" using nk n_le by simp
  ultimately obtain w1 where w1:
    "fetch_pages strptime srv repo u hs page stars w =
       fetch_pages strptime srv repo u hs (page + k) (stars @ concat (map ts [page..<page + k])) w1"
    "sent w1 = sent w @ map (page_request u hs) [page..<page + k]"
    "\<exists>ls. stdout w1 = stdout w @ ls" "dirs w1 = dirs w" "files w1 = files w"
    using fetch_pages_full_prefix [of page k strptime srv w u hs ts repo stars] by blast
  have last_page: "page_stars strptime (srv (sent w1) (page_request u hs n)) = Some (ts n)"
    using answered [of n] pn by (simp add: w1(2) nk)
  have "\<exists>w'. fetch_page strptime srv repo u hs n (stars @ concat (map ts [page..<n])) w1
               = Break ((stars @ concat (map ts [page..<n])) @ ts n) w'
            \<and> sent w' = sent w1 @ [page_request u hs n]
            \<and> (\<exists>ls. stdout w' = stdout w1 @ ls) \<and> dirs w' = dirs w1 \<and> files w' = files w1"
  proof (cases "length (ts n) < PER_PAGE")
    case True
    from fetch_page_short [where srv=srv and w=w1 and strptime=strptime and u=u and hs=hs
        and page=n and ts="ts n", OF last_page True]
    show ?thesis by blast
  next
    case False
    then have "n = MAX_PAGES" "PER_PAGE \<le> length (ts n)" using n by (auto simp: stop_def)
    then have "MAX_PAGES \<le> n" by simp
    from fetch_page_cap [where srv=srv and w=w1 and strptime=strptime and u=u and hs=hs
        and page=n and ts="ts n", OF last_page \<open>PER_PAGE \<le> length (ts n)\<close> this]
    show ?thesis by (auto simp: py_print_def)
  qed
  then obtain w' where w': "fetch_page strptime srv repo u hs n (stars @ concat (map ts [page..<n])) w1
               = Break ((stars @ concat (map ts [page..<n])) @ ts n) w'"
     "sent w' = sent w1 @ [page_request u hs n]"
     "\<exists>ls. stdout w' = stdout w1 @ ls" "dirs w' = dirs w1" "files w' = files w1"
    by blast
  have upt: "[page..<Suc n] = [page..<n] @ [n]" using pn by simp
  have "fetch_pages strptime srv repo u hs page stars w
          = (Inr (stars @ concat (map ts [page..<Suc n])), w')"
    using w1(1) w'(1) unfolding nk upt
    by (simp add: fetch_pages.simps [of strptime srv repo u hs n])
  moreover have "sent w' = sent w @ map (page_request u hs) [page..<Suc n]"
    using w1(2) w'(2) unfolding nk upt by simp
  moreover have "\<exists>ls. stdout w' = stdout w @ ls" using w1(3) w'(3) by auto
  moreover have "length (ts n) < PER_PAGE \<or> n = MAX_PAGES" using n by (simp add: stop_def)
  ultimately show ?thesis
    using pn n_le full w1(4,5) w'(4,5) by (intro exI [of _ n] exI [of _ w']) simp
qed

lemma fetch_pages_failure_after:
  assumes script: "\<forall>p. page \<le> p \<and> p < page + k \<longrightarrow>
             page_stars strptime (srv (sent w @ map (page_request u hs) [page..<p])
                                      (page_request u hs p)) = Some (ts p)
             \<and> PER_PAGE \<le> length (ts p)"
    and le: "page + k \<le> MAX_PAGES"
    and fail: "srv (sent w @ map (page_request u hs) [page..<page + k])
                   (page_request u hs (page + k)) = failure"
      "status_code failure \<noteq> 200"
  shows "\<exists>w' ls. fetch_pages strptime srv repo u hs page stars w
               = (Inr (stars @ concat (map ts [page..<page + k])), w')
           \<and> sent w' = sent w @ map (page_request u hs) [page..<Suc (page + k)]
           \<and> stdout w' = stdout w @ ls @
                 [''Error fetching data for '' @ repo @ '': '' @ str_int (status_code failure),
                  ''Response: '' @ text_body failure]
           \<and> dirs w' = dirs w \<and> files w' = files w"
proof -
  obtain w1 where w1:
    "fetch_pages strptime srv repo u hs page stars w =
       fetch_pages strptime srv repo u hs (page + k) (stars @ concat (map ts [page..<page + k])) w1"
    "sent w1 = sent w @ map (page_request u hs) [page..<page + k]"
    "\<exists>ls. stdout w1 = stdout w @ ls" "dirs w1 = dirs w" "files w1 = files w"
    using fetch_pages_full_prefix [of page k strptime srv w u hs ts repo stars] script le by blast
  then obtain ls where ls: "stdout w1 = stdout w @ ls" by blast
  have r: "srv (sent w1) (page_request u hs (page + k)) = failure"
    using fail(1) by (simp add: w1(2))
  then have "status_code (srv (sent w1) (page_request u hs (page + k))) \<noteq> 200"
    using fail(2) by simp
  note step = fetch_page_failed [where srv=srv and w=w1 and u=u and hs=hs and page="page + k"
      and strptime=strptime and repo=repo and stars="stars @ concat (map ts [page..<page + k])", OF this]
  define w' where "w' = py_print (''Response: '' @ text_body failure)
               (py_print (''Error fetching data for '' @ repo @ '': '' @ str_int (status_code failure))
                 (w1\<lparr>sent := sent w1 @ [page_request u hs (page + k)]\<rparr>))"
  have "fetch_pages strptime srv repo u hs page stars w
               = (Inr (stars @ concat (map ts [page..<page + k])), w')"
    using w1(1) step unfolding r w'_def
    by (simp add: fetch_pages.simps [of strptime srv repo u hs "page + k"])
  moreover have "sent w' = sent w @ map (page_request u hs) [page..<Suc (page + k)]"
    using w1(2) by (simp add: w'_def py_print_def)
  moreover have "stdout w' = stdout w @ ls @
                 [''Error fetching data for '' @ repo @ '': '' @ str_int (status_code failure),
                  ''Response: '' @ text_body failure]"
    using ls by (simp add: w'_def py_print_def)
  moreover have "dirs w' = dirs w" "files w' = files w"
    using w1(4,5) by (simp_all add: w'_def py_print_def)
  ultimately show ?thesis by blast
qed

lemma fetch_pages_raises_after:
  assumes script: "\<forall>p. page \<le> p \<and> p < page + k \<longrightarrow>
             page_stars strptime (srv (sent w @ map (page_request u hs) [page..<p])
                                      (page_request u hs p)) = Some (ts p)
             \<and> PER_PAGE \<le> length (ts p)"
    and le: "page + k \<le> MAX_PAGES"
    and bad: "srv (sent w @ map (page_request u hs) [page..<page + k])
                  (page_request u hs (page + k)) = bad"
      "status_code bad = 200"
      "json_body bad = None
         \<or> (\<exists>items item e. json_body bad = Some (JArray items)
               \<and> item \<in> set items \<and> item_starred_at strptime item = Inl e)"
  shows "\<exists>e w'. fetch_pages strptime srv repo u hs page stars w = (Inl e, w')
           \<and> sent w' = sent w @ map (page_request u hs) [page..<Suc (page + k)]
           \<and> dirs w' = dirs w \<and> files w' = files w"
proof -
  obtain w1 where w1:
    "fetch_pages strptime srv repo u hs page stars w =
       fetch_pages strptime srv repo u hs (page + k) (stars @ concat (map ts [page..<page + k])) w1"
    "sent w1 = sent w @ map (page_request u hs) [page..<page + k]"
    "\<exists>ls. stdout w1 = stdout w @ ls" "dirs w1 = dirs w" "files w1 = files w"
    using fetch_pages_full_prefix [of page k strptime srv w u hs ts repo stars] script le by blast
  have r: "srv (sent w1) (page_request u hs (page + k)) = bad"
    using bad(1) by (simp add: w1(2))
  have "\<exists>e. fetch_page strptime srv repo u hs (page + k) (stars @ concat (map ts [page..<page + k])) w1 =
           Raise e (w1\<lparr>sent := sent w1 @ [page_request u hs (page + k)]\<rparr>)"
    by (rule fetch_page_raises) (use bad(2,3) in \<open>simp_all add: r\<close>)
  then obtain e where "fetch_page strptime srv repo u hs (page + k) (stars @ concat (map ts [page..<page + k])) w1 =
           Raise e (w1\<lparr>sent := sent w1 @ [page_request u hs (page + k)]\<rparr>)"
    by blast
  then have "fetch_pages strptime srv repo u hs page stars w
               = (Inl e, w1\<lparr>sent := sent w1 @ [page_request u hs (page + k)]\<rparr>)"
    using w1(1) by (simp add: fetch_pages.simps [of strptime srv repo u hs "page + k"])
  then show ?thesis using w1(2,4,5) by simp
qed

subsection \<open>Unfolding a fetch, and the pages of the examples\<close>

lemma fetch_pages_once:
  "fetch_page strptime srv repo u hs page stars w = Break stars' w' \<Longrightarrow>
   fetch_pages strptime srv repo u hs page stars w = (Inr stars', w')"
  by (simp add: fetch_pages.simps [of strptime srv repo u hs page])

lemma split_pyclean: "split_on CHR ''/'' ''bittner/pyclean'' = [''bittner'', ''pyclean'']"
  by simp

lemma append_starred_replicate:
  "item_starred_at strptime item = Inr t \<Longrightarrow>
   append_starred strptime (replicate n item) stars = Inr (stars @ replicate n t)"
proof (induction n arbitrary: stars)
  case 0
  then show ?case by simp
next
  case (Suc n)
  then show ?case by (simp add: replicate_app_Cons_same)
qed

lemma collect_stars_split:
  "split_on CHR ''/'' repo = [owner, name] \<Longrightarrow>
   collect_stars strptime srv GITHUB_TOKEN repo w =
     fetch_pages strptime srv repo (stargazers_url owner name) (request_headers GITHUB_TOKEN) 1 []
       (py_print (''Fetching star data for '' @ repo @ ''...'') w)"
  by (simp add: collect_stars_def)

lemma page_request_100:
  "page_request u hs p = \<lparr>url = u, headers = hs, params = [(''page'', p), (''per_page'', 100)]\<rparr>"
  by (simp add: page_request_def PER_PAGE_def)

lemma item_starred_at_star: "item_starred_at strptime (star s) = 
    (case strptime s of None \<Rightarrow> Inl ValueError | Some t \<Rightarrow> Inr t)"
  by (simp add: item_starred_at_def star_def)

lemma day_strptime_simps:
  "day_strptime ''2024-01-01T00:00:00Z'' = Some 1"
  "day_strptime ''2024-01-02T00:00:00Z'' = Some 2"
  "day_strptime ''2024-01-03T00:00:00Z'' = Some 3"
  by (simp_all add: day_strptime_def)

lemma page_stars_three:
  "page_stars day_strptime (ok_response (JArray [star ''2024-01-02T00:00:00Z'',
                          star ''2024-01-01T00:00:00Z'',
                          star ''2024-01-03T00:00:00Z''])) = Some [2, 1, 3]"
  by (simp add: page_stars_def ok_response_def item_starred_at_star day_strptime_simps)

lemma page_stars_full:
  "page_stars day_strptime (ok_response (JArray (replicate 100 (star ''2024-01-01T00:00:00Z''))))
     = Some (replicate 100 1)"
  by (simp add: page_stars_def ok_response_def append_starred_replicate [where t = 1]
        item_starred_at_star day_strptime_simps)

lemma headers_None: "request_headers None = [(''Accept'', ''application/vnd.github.v3.star+json'')]"
  by (simp add: request_headers_def token_set_def)

subsection \<open>What a fetch does to the world\<close>

lemma collect_stars_world:
  assumes "collect_stars strptime srv GITHUB_TOKEN repo w = (res, w')"
  shows "dirs w' = dirs w \<and> files w' = files w
         \<and> (\<exists>rs. sent w' = sent w @ rs \<and> (\<forall>r \<in> set rs. headers r = request_headers GITHUB_TOKEN))
         \<and> (\<exists>ls. stdout w' = stdout w @ ls)"
proof (cases "\<exists>owner name. split_on CHR ''/'' repo = [owner, name]")
  case True
  then obtain owner name where sp: "split_on CHR ''/'' repo = [owner, name]" by blast
  let ?w0 = "py_print (''Fetching star data for '' @ repo @ ''...'') w"
  from assms have "fetch_pages strptime srv repo (stargazers_url owner name)
      (request_headers GITHUB_TOKEN) 1 [] ?w0 = (res, w')"
    by (simp add: collect_stars_split [OF sp])
  from fetch_pages_trace [OF this] obtain n ls where
    "sent w' = sent ?w0 @ map (page_request (stargazers_url owner name) (request_headers GITHUB_TOKEN)) [1..<1 + n]"
    "dirs w' = dirs ?w0" "files w' = files ?w0" "stdout w' = stdout ?w0 @ ls"
    by blast
  then show ?thesis
    by (auto simp: py_print_def page_request_def)
next
  case False
  then have "collect_stars strptime srv GITHUB_TOKEN repo w = (Inl ValueError, w)"
    by (auto simp: collect_stars_def split: list.splits)
  with assms show ?thesis by auto
qed

lemma get_star_history_world:
  assumes "get_star_history strptime srv GITHUB_TOKEN repo w = (res, w')"
  shows "dirs w' = dirs w \<and> files w' = files w
         \<and> (\<exists>rs. sent w' = sent w @ rs \<and> (\<forall>r \<in> set rs. headers r = request_headers GITHUB_TOKEN))
         \<and> (\<exists>ls. stdout w' = stdout w @ ls)"
proof -
  obtain r1 w1 where c: "collect_stars strptime srv GITHUB_TOKEN repo w = (r1, w1)"
    by (cases "collect_stars strptime srv GITHUB_TOKEN repo w")
  note w1 = collect_stars_world [OF c]
  show ?thesis
  proof (cases r1)
    case (Inl e)
    with assms c have "w' = w1" by (simp add: get_star_history_def)
    with w1 show ?thesis by simp
  next
    case (Inr stars)
    with assms c have "w' = py_print (''  Total stars: '' @ str_nat (length stars)) w1"
      by (simp add: get_star_history_def)
    with w1 show ?thesis by (auto simp: py_print_def)
  qed
qed

lemma fetch_repos_world:
  "fetch_repos strptime srv GITHUB_TOKEN repos repo_data w = (res, w') \<Longrightarrow>
   dirs w' = dirs w \<and> files w' = files w
   \<and> (\<exists>rs. sent w' = sent w @ rs \<and> (\<forall>r \<in> set rs. headers r = request_headers GITHUB_TOKEN))
   \<and> (\<exists>ls. stdout w' = stdout w @ ls)"
proof (induction repos arbitrary: repo_data w)
  case Nil
  then show ?case by simp
next
  case (Cons repo repos)
  obtain r1 w1 where g: "get_star_history strptime srv GITHUB_TOKEN repo w = (r1, w1)"
    by (cases "get_star_history strptime srv GITHUB_TOKEN repo w")
  note w1 = get_star_history_world [OF g]
  show ?case
  proof (cases r1)
    case (Inl e)
    with Cons.prems g have "w' = w1" by simp
    with w1 show ?thesis by simp
  next
    case (Inr data)
    with Cons.prems g have
      "fetch_repos strptime srv GITHUB_TOKEN repos (AList.update repo data repo_data) w1 = (res, w')"
      by simp
    from Cons.IH [OF this] obtain rs2 ls2 where a:
      "dirs w' = dirs w1" "files w' = files w1" "sent w' = sent w1 @ rs2"
      "\<forall>r \<in> set rs2. headers r = request_headers GITHUB_TOKEN" "stdout w' = stdout w1 @ ls2"
      by blast
    from w1 obtain rs1 ls1 where b:
      "dirs w1 = dirs w" "files w1 = files w" "sent w1 = sent w @ rs1"
      "\<forall>r \<in> set rs1. headers r = request_headers GITHUB_TOKEN" "stdout w1 = stdout w @ ls1"
      by blast
    have "sent w' = sent w @ (rs1 @ rs2)" using a(3) b(3) by simp
    moreover have "\<forall>r \<in> set (rs1 @ rs2). headers r = request_headers GITHUB_TOKEN"
      using a(4) b(4) by auto
    moreover have "stdout w' = stdout w @ (ls1 @ ls2)" using a(5) b(5) by simp
    ultimately show ?thesis using a(1,2) b(1,2) by metis
  qed
qed

subsection \<open>The mapping built by the driver\<close>

lemma fetch_repos_other_key:
  "fetch_repos strptime srv GITHUB_TOKEN repos repo_data w = (Inr result, w') \<Longrightarrow>
   k \<notin> set repos \<Longrightarrow> map_of result k = map_of repo_data k"
proof (induction repos arbitrary: repo_data w)
  case Nil
  then show ?case by simp
next
  case (Cons repo repos)
  obtain r1 w1 where g: "get_star_history strptime srv GITHUB_TOKEN repo w = (r1, w1)"
    by (cases "get_star_history strptime srv GITHUB_TOKEN repo w")
  with Cons.prems(1) obtain data where r1: "r1 = Inr data"
    and rest: "fetch_repos strptime srv GITHUB_TOKEN repos (AList.update repo data repo_data) w1
                 = (Inr result, w')"
    by (cases r1) auto
  have "k \<notin> set repos" "k \<noteq> repo" using Cons.prems(2) by auto
  from Cons.IH [OF rest this(1)] this(2) show ?case by (simp add: update_conv')
qed

lemma fetch_repos_keys:
  "fetch_repos strptime srv GITHUB_TOKEN repos repo_data w = (Inr result, w') \<Longrightarrow>
   distinct repos \<Longrightarrow> set repos \<inter> fst ` set repo_data = {} \<Longrightarrow>
   map fst result = map fst repo_data @ repos"
proof (induction repos arbitrary: repo_data w)
  case Nil
  then show ?case by simp
next
  case (Cons repo repos)
  obtain r1 w1 where g: "get_star_history strptime srv GITHUB_TOKEN repo w = (r1, w1)"
    by (cases "get_star_history strptime srv GITHUB_TOKEN repo w")
  with Cons.prems(1) obtain data where r1: "r1 = Inr data"
    and rest: "fetch_repos strptime srv GITHUB_TOKEN repos (AList.update repo data repo_data) w1
                 = (Inr result, w')"
    by (cases r1) auto
  have keys: "map fst (AList.update repo data repo_data) = map fst repo_data @ [repo]"
    using Cons.prems(3) by (simp add: update_keys)
  have "fst ` set (AList.update repo data repo_data) = insert repo (fst ` set repo_data)"
    using arg_cong [OF keys, of set] by simp
  then have "set repos \<inter> fst ` set (AList.update repo data repo_data) = {}"
    using Cons.prems(2,3) by auto
  from Cons.IH [OF rest _ this] Cons.prems(2) keys show ?case by simp
qed

lemma fetch_repos_entry:
  "fetch_repos strptime srv GITHUB_TOKEN repos repo_data w = (Inr result, w') \<Longrightarrow>
   distinct repos \<Longrightarrow> repo \<in> set repos \<Longrightarrow>
   \<exists>w1 w2 data. get_star_history strptime srv GITHUB_TOKEN repo w1 = (Inr data, w2)
                \<and> map_of result repo = Some data"
proof (induction repos arbitrary: repo_data w)
  case Nil
  then show ?case by simp
next
  case (Cons r repos)
  obtain r1 w1 where g: "get_star_history strptime srv GITHUB_TOKEN r w = (r1, w1)"
    by (cases "get_star_history strptime srv GITHUB_TOKEN r w")
  with Cons.prems(1) obtain data where r1: "r1 = Inr data"
    and rest: "fetch_repos strptime srv GITHUB_TOKEN repos (AList.update r data repo_data) w1
                 = (Inr result, w')"
    by (cases r1) auto
  show ?case
  proof (cases "repo = r")
    case True
    then have "repo \<notin> set repos" using Cons.prems(2) by simp
    from fetch_repos_other_key [OF rest this] have "map_of result repo = Some data"
      using True by (simp add: update_conv')
    with g r1 True show ?thesis by blast
  next
    case False
    then have "repo \<in> set repos" using Cons.prems(3) by simp
    from Cons.IH [OF rest _ this] Cons.prems(2) show ?thesis by simp
  qed
qed

lemma fetch_repos_raises:
  "repo \<in> set repos \<Longrightarrow>
   (\<forall>w0. \<exists>e w1. get_star_history strptime srv GITHUB_TOKEN repo w0 = (Inl e, w1)) \<Longrightarrow>
   \<exists>e w'. fetch_repos strptime srv GITHUB_TOKEN repos repo_data w = (Inl e, w')"
proof (induction repos arbitrary: repo_data w)
  case Nil
  then show ?case by simp
next
  case (Cons r repos)
  obtain r1 w1 where g: "get_star_history strptime srv GITHUB_TOKEN r w = (r1, w1)"
    by (cases "get_star_history strptime srv GITHUB_TOKEN r w")
  show ?case
  proof (cases r1)
    case (Inl e)
    with g show ?thesis by simp
  next
    case (Inr data)
    have "repo \<noteq> r"
    proof
      assume "repo = r"
      with Cons.prems(2) obtain e w2 where
        "get_star_history strptime srv GITHUB_TOKEN r w = (Inl e, w2)"
        by blast
      with g Inr show False by simp
    qed
    with Cons.prems(1) have "repo \<in> set repos" by simp
    from Cons.IH [OF this Cons.prems(2)] g Inr show ?thesis by simp
  qed
qed

lemma distinct_REPOS: "distinct REPOS"
  by (simp add: REPOS_def)

lemma any_values_iff: "any_values repo_data \<longleftrightarrow> (\<exists>kv \<in> set repo_data. snd kv \<noteq> [])"
  by (simp add: any_values_def list_ex_iff)

subsection \<open>The plotted lines\<close>

lemma plot_repos_eq:
  "plot_repos items ax =
     ax @ map (\<lambda>(idx, repo, data).
                 \<lparr>label = repo, color = COLORS ! (idx mod length COLORS), linewidth = 2,
                  xdata = map fst data, ydata = map snd data\<rparr>)
            (filter (\<lambda>(idx, repo, data). data \<noteq> []) items)"
  by (induction items ax rule: plot_repos.induct) simp_all

lemma plotted_series:
  "map (\<lambda>l. (label l, zip (xdata l) (ydata l))) (plot_lines (chart repo_data))
     = filter (\<lambda>(repo, data). data \<noteq> []) repo_data"
proof -
  have "map (\<lambda>l. (label l, zip (xdata l) (ydata l))) (plot_lines (chart repo_data))
          = map snd (filter (\<lambda>(idx, repo, data). data \<noteq> []) (enumerate 0 repo_data))"
    by (simp add: chart_def plot_repos_eq case_prod_unfold zip_map_fst_snd)
  also have "\<dots> = map snd (filter ((\<lambda>p. snd p \<noteq> []) \<circ> snd) (enumerate 0 repo_data))"
    by (simp add: comp_def case_prod_unfold)
  also have "\<dots> = filter (\<lambda>p. snd p \<noteq> []) (map snd (enumerate 0 repo_data))"
    by (rule filter_map [symmetric])
  finally show ?thesis by (simp add: case_prod_unfold)
qed

subsection \<open>Results of a fetch and of the driver\<close>

lemma get_star_history_fst:
  "fst (get_star_history strptime srv GITHUB_TOKEN repo w) =
     (case fst (collect_stars strptime srv GITHUB_TOKEN repo w) of
        Inl e \<Rightarrow> Inl e
      | Inr stars \<Rightarrow> Inr (cumulative stars))"
  by (simp add: get_star_history_def split: prod.splits sum.splits)

lemma cumulative_Nil: "cumulative [] = []"
  by (simp add: cumulative_def)

lemma get_star_history_first_page_failed:
  assumes "split_on CHR ''/'' repo = [owner, name]"
    and "status_code (srv (sent w) (page_request (stargazers_url owner name)
                                       (request_headers GITHUB_TOKEN) 1)) \<noteq> 200"
  shows "fst (get_star_history strptime srv GITHUB_TOKEN repo w) = Inr []"
proof -
  let ?w0 = "py_print (''Fetching star data for '' @ repo @ ''...'') w"
  have "sent ?w0 = sent w" by (simp add: py_print_def)
  with assms(2) have "status_code (srv (sent ?w0) (page_request (stargazers_url owner name)
                                       (request_headers GITHUB_TOKEN) 1)) \<noteq> 200"
    by simp
  from fetch_pages_once [OF fetch_page_failed [where srv = srv and w = ?w0 and stars = "[]"
        and strptime = strptime and repo = repo, OF this]]
  have "fst (fetch_pages strptime srv repo (stargazers_url owner name)
               (request_headers GITHUB_TOKEN) 1 [] ?w0) = Inr []"
    by (simp only: fst_conv)
  then show ?thesis
    by (simp only: get_star_history_fst collect_stars_split [OF assms(1)] sum.case cumulative_Nil)
qed

lemma get_star_history_single_page:
  assumes "split_on CHR ''/'' repo = [owner, name]"
    and "page_stars strptime (srv (sent w) (page_request (stargazers_url owner name)
                                       (request_headers GITHUB_TOKEN) 1)) = Some ts"
    and "length ts < PER_PAGE"
  shows "fst (get_star_history strptime srv GITHUB_TOKEN repo w) = Inr (cumulative ts)"
proof -
  let ?w0 = "py_print (''Fetching star data for '' @ repo @ ''...'') w"
  have "sent ?w0 = sent w" by (simp add: py_print_def)
  with assms(2) have "page_stars strptime (srv (sent ?w0) (page_request (stargazers_url owner name)
                                       (request_headers GITHUB_TOKEN) 1)) = Some ts"
    by simp
  from fetch_page_short [where srv = srv and w = ?w0 and stars = "[]" and repo = repo, OF this assms(3)]
  obtain w' where "fetch_page strptime srv repo (stargazers_url owner name)
      (request_headers GITHUB_TOKEN) 1 [] ?w0 = Break ([] @ ts) w'"
    by blast
  from fetch_pages_once [OF this]
  have "fst (fetch_pages strptime srv repo (stargazers_url owner name)
               (request_headers GITHUB_TOKEN) 1 [] ?w0) = Inr ts"
    by (simp only: fst_conv append_Nil)
  then show ?thesis
    by (simp only: get_star_history_fst collect_stars_split [OF assms(1)] sum.case)
qed

lemma py_print_sent: "sent (py_print s w) = sent w"
  by (simp add: py_print_def)

lemma get_star_history_raises:
  assumes repo: "split_on CHR ''/'' repo = [owner, name]"
    and u: "u = stargazers_url owner name" and hs: "hs = request_headers GITHUB_TOKEN"
    and k: "k < MAX_PAGES"
    and script: "\<forall>p. 1 \<le> p \<and> p \<le> k \<longrightarrow>
                   page_stars strptime (page_response srv (sent w) u hs p) = Some (ts p)
                   \<and> PER_PAGE \<le> length (ts p)"
    and bad: "page_response srv (sent w) u hs (Suc k) = bad" "status_code bad = 200"
      "json_body bad = None
         \<or> (\<exists>items item e. json_body bad = Some (JArray items)
               \<and> item \<in> set items \<and> item_starred_at strptime item = Inl e)"
  shows "\<exists>e w'. get_star_history strptime srv GITHUB_TOKEN repo w = (Inl e, w')"
proof -
  let ?w0 = "py_print (''Fetching star data for '' @ repo @ ''...'') w"
  have s: "sent ?w0 = sent w" by (simp add: py_print_def)
  have "\<forall>p. 1 \<le> p \<and> p < 1 + k \<longrightarrow>
             page_stars strptime (srv (sent ?w0 @ map (page_request u hs) [1..<p])
                                      (page_request u hs p)) = Some (ts p)
             \<and> PER_PAGE \<le> length (ts p)"
    using script by (auto simp: page_response_def py_print_sent)
  moreover have "1 + k \<le> MAX_PAGES" using k by simp
  moreover have "srv (sent ?w0 @ map (page_request u hs) [1..<1 + k])
                  (page_request u hs (1 + k)) = bad"
    using bad(1) by (simp add: page_response_def py_print_sent)
  ultimately obtain e w1 where
    "fetch_pages strptime srv repo u hs 1 [] ?w0 = (Inl e, w1)"
    using fetch_pages_raises_after [of 1 k strptime srv ?w0 u hs ts bad repo "[]"] bad(2,3)
    by blast
  then show ?thesis
    by (simp add: get_star_history_def collect_stars_split [OF repo] u hs)
qed

lemma fetch_repos_fold:
  "(\<forall>r \<in> set repos. \<forall>w. fst (get_star_history strptime srv GITHUB_TOKEN r w) = Inr (series r)) \<Longrightarrow>
   fst (fetch_repos strptime srv GITHUB_TOKEN repos repo_data w)
     = Inr (fold (\<lambda>r. AList.update r (series r)) repos repo_data)"
proof (induction repos arbitrary: repo_data w)
  case Nil
  then show ?case by simp
next
  case (Cons r repos)
  obtain r1 w1 where g: "get_star_history strptime srv GITHUB_TOKEN r w = (r1, w1)"
    by (cases "get_star_history strptime srv GITHUB_TOKEN r w")
  with Cons.prems have "r1 = Inr (series r)"
    by (metis fst_conv list.set_intros(1))
  with g Cons.IH [of "AList.update r (series r) repo_data" w1] Cons.prems show ?case
    by simp
qed

lemma main_result:
  assumes "fetch_repos strptime srv GITHUB_TOKEN REPOS [] (warn_token GITHUB_TOKEN w) = (Inr repo_data, w1)"
  shows "main strptime srv GITHUB_TOKEN w =
     (if any_values repo_data then
        (Inr 0, py_print (CHR 0x0A # ''Star history chart generated successfully!'')
                  (generate_chart repo_data w1))
      else (Inr 1, py_print (CHR 0x0A # ''Error: No data fetched for any repository.'') w1))"
  using assms by (simp add: main_def)

lemma main_raises:
  assumes "fetch_repos strptime srv GITHUB_TOKEN REPOS [] (warn_token GITHUB_TOKEN w) = (Inl e, w1)"
  shows "main strptime srv GITHUB_TOKEN w = (Inl e, w1)"
  using assms by (simp add: main_def)

lemma warn_token_world:
  "sent (warn_token GITHUB_TOKEN w) = sent w" "dirs (warn_token GITHUB_TOKEN w) = dirs w"
  "files (warn_token GITHUB_TOKEN w) = files w"
  by (simp_all add: warn_token_def py_print_def)

lemma item_missing_or_unparsed:
  assumes "map_of kvs ''starred_at'' = None
           \<or> (\<exists>s. map_of kvs ''starred_at'' = Some (JString s) \<and> strptime s = None)"
  shows "\<exists>e. item_starred_at strptime (JObject kvs) = Inl e"
  using assms by (auto simp: item_starred_at_def)

lemma REPOS_split:
  "repo \<in> set REPOS \<Longrightarrow> \<exists>owner name. split_on CHR ''/'' repo = [owner, name]"
  by (auto simp: REPOS_def)

subsection \<open>What the example servers return\<close>

lemma pyclean_only_pyclean:
  "fst (get_star_history day_strptime pyclean_only_server GITHUB_TOKEN ''bittner/pyclean'' w)
     = Inr [(1, 1), (2, 2), (3, 3)]"
proof -
  have "page_stars day_strptime
          (pyclean_only_server (sent w)
             (page_request (stargazers_url ''bittner'' ''pyclean'') (request_headers GITHUB_TOKEN) 1))
          = Some [2, 1, 3]"
    by (simp add: pyclean_only_server_def page_request_def stargazers_url_def
          three_stars_server_def page_stars_three)
  moreover have "length [2::nat, 1, 3] < PER_PAGE" by (simp add: PER_PAGE_def)
  ultimately have "fst (get_star_history day_strptime pyclean_only_server GITHUB_TOKEN ''bittner/pyclean'' w)
     = Inr (cumulative [2, 1, 3])"
    by (rule get_star_history_single_page [where srv = pyclean_only_server and w = w, OF split_pyclean])
  then show ?thesis by (simp add: cumulative_def)
qed

lemma pyclean_only_other:
  assumes "split_on CHR ''/'' repo = [owner, name]"
    and "stargazers_url owner name \<noteq> ''https://api.github.com/repos/bittner/pyclean/stargazers''"
  shows "fst (get_star_history strptime pyclean_only_server GITHUB_TOKEN repo w) = Inr []"
proof -
  have "status_code (pyclean_only_server (sent w)
          (page_request (stargazers_url owner name) (request_headers GITHUB_TOKEN) 1)) \<noteq> 200"
    using assms(2) by (simp add: pyclean_only_server_def page_request_def not_found_def)
  then show ?thesis
    by (rule get_star_history_first_page_failed [where srv = pyclean_only_server and w = w, OF assms(1)])
qed

lemma pyclean_only_series:
  "\<forall>r \<in> set REPOS. \<forall>w. fst (get_star_history day_strptime pyclean_only_server GITHUB_TOKEN r w)
      = Inr (if r = ''bittner/pyclean'' then [(1, 1), (2, 2), (3, 3)] else [])"
proof -
  have a: "fst (get_star_history day_strptime pyclean_only_server GITHUB_TOKEN
              ''painless-software/python-cli-test-helpers'' w) = Inr []" for w
    by (rule pyclean_only_other [where owner = "''painless-software''" and name = "''python-cli-test-helpers''"])
       (simp_all add: stargazers_url_def)
  have b: "fst (get_star_history day_strptime pyclean_only_server GITHUB_TOKEN
              ''painless-software/django-probes'' w) = Inr []" for w
    by (rule pyclean_only_other [where owner = "''painless-software''" and name = "''django-probes''"])
       (simp_all add: stargazers_url_def)
  have c: "fst (get_star_history day_strptime pyclean_only_server GITHUB_TOKEN
              ''behave/behave-django'' w) = Inr []" for w
    by (rule pyclean_only_other [where owner = "''behave''" and name = "''behave-django''"])
       (simp_all add: stargazers_url_def)
  have d: "fst (get_star_history day_strptime pyclean_only_server GITHUB_TOKEN
              ''jazzband/django-analytical'' w) = Inr []" for w
    by (rule pyclean_only_other [where owner = "''jazzband''" and name = "''django-analytical''"])
       (simp_all add: stargazers_url_def)
  have e: "fst (get_star_history day_strptime pyclean_only_server GITHUB_TOKEN
              ''behave/behave'' w) = Inr []" for w
    by (rule pyclean_only_other [where owner = "''behave''" and name = "''behave''"])
       (simp_all add: stargazers_url_def)
  show ?thesis
    by (simp add: REPOS_def pyclean_only_pyclean a b c d e)
qed

lemma pyclean_only_fetch:
  "fst (fetch_repos day_strptime pyclean_only_server GITHUB_TOKEN REPOS [] w) = Inr pyclean_only_data"
proof -
  have "fst (fetch_repos day_strptime pyclean_only_server GITHUB_TOKEN REPOS [] w)
          = Inr (fold (\<lambda>r. AList.update r (if r = ''bittner/pyclean'' then [(1, 1), (2, 2), (3, 3)] else []))
                   REPOS [])"
    by (rule fetch_repos_fold [OF pyclean_only_series])
  also have "fold (\<lambda>r. AList.update r (if r = ''bittner/pyclean'' then [(1, 1), (2, 2), (3, 3)] else []))
                   REPOS [] = pyclean_only_data"
    by (simp add: REPOS_def pyclean_only_data_def)
  finally show ?thesis .
qed

lemma not_found_fetch:
  "fst (fetch_repos (strptime :: string \<Rightarrow> ('t::linorder) option) not_found_server
          GITHUB_TOKEN REPOS [] w)
     = Inr (map (\<lambda>r. (r, [])) REPOS)"
proof -
  have "\<forall>r \<in> set REPOS. \<forall>w. fst (get_star_history strptime not_found_server GITHUB_TOKEN r w) = Inr []"
  proof (intro ballI allI)
    fix r and w :: "'t world"
    assume "r \<in> set REPOS"
    then obtain owner name where sp: "split_on CHR ''/'' r = [owner, name]"
      using REPOS_split by blast
    have "status_code (not_found_server (sent w)
          (page_request (stargazers_url owner name) (request_headers GITHUB_TOKEN) 1)) \<noteq> 200"
      by (simp add: not_found_server_def not_found_def)
    then show "fst (get_star_history strptime not_found_server GITHUB_TOKEN r w) = Inr []"
      by (rule get_star_history_first_page_failed [where srv = not_found_server and w = w, OF sp])
  qed
  then have "fst (fetch_repos strptime not_found_server GITHUB_TOKEN REPOS [] w)
          = Inr (fold (\<lambda>r. AList.update r []) REPOS [])"
    by (rule fetch_repos_fold)
  also have "fold (\<lambda>r. AList.update r []) REPOS [] = map (\<lambda>r. (r, [])) REPOS"
    by (simp add: REPOS_def)
  finally show ?thesis .
qed

subsection \<open>What the driver does to the world\<close>

lemma generate_chart_world:
  "files (generate_chart repo_data w) = (files w)(OUTPUT_FILE \<mapsto> Svg (chart repo_data) CHART_DPI)"
  "dirs (generate_chart repo_data w) = insert OUTPUT_DIR (dirs w)"
  "sent (generate_chart repo_data w) = sent w"
  "stdout (generate_chart repo_data w)
     = stdout w @ [CHR 0x0A # ''Chart saved to star-history/star-history.svg'']"
  by (auto simp: generate_chart_def py_print_def savefig_def mkdir_parents_def OUTPUT_DIR_def
        OUTPUT_FILE_def)

lemma main_world:
  "\<exists>rs ls. sent (snd (main strptime srv GITHUB_TOKEN w)) = sent w @ rs
     \<and> (\<forall>r \<in> set rs. headers r = request_headers GITHUB_TOKEN)
     \<and> stdout (snd (main strptime srv GITHUB_TOKEN w)) = stdout (warn_token GITHUB_TOKEN w) @ ls"
proof -
  obtain res w' where f:
    "fetch_repos strptime srv GITHUB_TOKEN REPOS [] (warn_token GITHUB_TOKEN w) = (res, w')"
    by (cases "fetch_repos strptime srv GITHUB_TOKEN REPOS [] (warn_token GITHUB_TOKEN w)")
  from fetch_repos_world [OF f] obtain rs ls where w':
    "sent w' = sent w @ rs" "\<forall>r \<in> set rs. headers r = request_headers GITHUB_TOKEN"
    "stdout w' = stdout (warn_token GITHUB_TOKEN w) @ ls"
    by (auto simp: warn_token_world)
  show ?thesis
  proof (cases res)
    case (Inl e)
    with f have "snd (main strptime srv GITHUB_TOKEN w) = w'" by (simp add: main_raises)
    with w' show ?thesis by blast
  next
    case (Inr repo_data)
    with f have "main strptime srv GITHUB_TOKEN w =
     (if any_values repo_data then
        (Inr 0, py_print (CHR 0x0A # ''Star history chart generated successfully!'')
                  (generate_chart repo_data w'))
      else (Inr 1, py_print (CHR 0x0A # ''Error: No data fetched for any repository.'') w'))"
      by (simp add: main_result)
    then have "sent (snd (main strptime srv GITHUB_TOKEN w)) = sent w'"
      "\<exists>ls'. stdout (snd (main strptime srv GITHUB_TOKEN w)) = stdout w' @ ls'"
      by (auto simp: py_print_def generate_chart_world)
    with w' show ?thesis by auto
  qed
qed

lemma authorization_header:
  "tok \<noteq> [] \<Longrightarrow> map_of (request_headers (Some tok)) ''Authorization'' = Some (''token '' @ tok)"
  "map_of (request_headers None) ''Authorization'' = None"
  by (simp_all add: request_headers_def token_set_def update_conv')

lemma map_constant: "\<forall>x \<in> set xs. f x = c \<Longrightarrow> map f xs = replicate (length xs) c"
  by (induction xs) auto

lemma not_found_run_length:
  "length (sent (snd (main day_strptime not_found_server GITHUB_TOKEN fresh_world))) = 6"
  by (simp add: main_def REPOS_def warn_token_def get_star_history_def
        collect_stars_def fetch_pages.simps fetch_page_def requests_get_def not_found_server_def
        not_found_def py_print_def fresh_world_def any_values_def cumulative_def Let_def)

subsection \<open>Colours\<close>

lemma enumerate_nth: "enumerate 0 xs = map (\<lambda>i. (i, xs ! i)) [0..<length xs]"
  using enumerate_map_upt [of 0 "(!) xs" "length xs"] by (simp add: map_nth)

lemma plot_lines_chart:
  "plot_lines (chart repo_data) =
     map (\<lambda>(idx, repo, data).
            \<lparr>label = repo, color = COLORS ! (idx mod length COLORS), linewidth = 2,
             xdata = map fst data, ydata = map snd data\<rparr>)
       (filter (\<lambda>(idx, repo, data). data \<noteq> []) (enumerate 0 repo_data))"
  by (simp add: chart_def plot_repos_eq)

lemma length_COLORS: "length COLORS = 10"
  by (simp add: COLORS_def)

lemma colors_by_position:
  "map (\<lambda>l. (label l, color l)) (plot_lines (chart repo_data))
     = map (\<lambda>i. (fst (repo_data ! i), COLORS ! (i mod 10)))
         (filter (\<lambda>i. snd (repo_data ! i) \<noteq> []) [0..<length repo_data])"
  by (simp add: plot_lines_chart enumerate_nth filter_map comp_def case_prod_unfold length_COLORS)

lemma in_enumerate_snd: "p \<in> set (enumerate n xs) \<Longrightarrow> snd p \<in> set xs"
  by (metis image_eqI list.set_map map_snd_enumerate)

lemma plotted_labels:
  assumes "l \<in> set (map (\<lambda>(idx, repo, data).
            \<lparr>label = repo, color = COLORS ! (idx mod length COLORS), linewidth = 2,
             xdata = map fst data, ydata = map snd data\<rparr>)
       (filter (\<lambda>(idx, repo, data). data \<noteq> []) (enumerate n repo_data)))"
  shows "label l \<in> fst ` set repo_data"
proof -
  from assms obtain idx repo data where p: "(idx, repo, data) \<in> set (enumerate n repo_data)"
    and l: "label l = repo"
    by auto
  from in_enumerate_snd [OF p] have "(repo, data) \<in> set repo_data" by simp
  with l show ?thesis by force
qed

lemma emptied_entry_general:
  "distinct (map fst repo_data) \<Longrightarrow> i < length repo_data \<Longrightarrow>
   map (\<lambda>(idx, repo, data).
            \<lparr>label = repo, color = COLORS ! (idx mod length COLORS), linewidth = 2,
             xdata = map fst data, ydata = map snd data\<rparr>)
       (filter (\<lambda>(idx, repo, data). data \<noteq> [])
          (enumerate n (repo_data[i := (fst (repo_data ! i), [])])))
   = filter (\<lambda>l. label l \<noteq> fst (repo_data ! i))
       (map (\<lambda>(idx, repo, data).
            \<lparr>label = repo, color = COLORS ! (idx mod length COLORS), linewidth = 2,
             xdata = map fst data, ydata = map snd data\<rparr>)
         (filter (\<lambda>(idx, repo, data). data \<noteq> []) (enumerate n repo_data)))"
proof (induction repo_data arbitrary: n i)
  case Nil
  then show ?case by simp
next
  case (Cons x xs)
  let ?mk = "\<lambda>(idx, repo, data).
            \<lparr>label = repo, color = COLORS ! (idx mod length COLORS), linewidth = 2,
             xdata = map fst data, ydata = map snd data\<rparr> :: 'a plot_line"
  let ?ne = "\<lambda>(idx :: nat, repo :: string, data :: ('a \<times> int) list). data \<noteq> []"
  show ?case
  proof (cases i)
    case 0
    have "label l \<noteq> fst x" if "l \<in> set (map ?mk (filter ?ne (enumerate (Suc n) xs)))" for l
    proof -
      have "label l \<in> fst ` set xs" by (rule plotted_labels [OF that])
      moreover have "fst x \<notin> fst ` set xs" using Cons.prems(1) by simp
      ultimately show ?thesis by metis
    qed
    then have "\<forall>l \<in> set (map ?mk (filter ?ne (enumerate (Suc n) xs))). label l \<noteq> fst x"
      by blast
    then have "filter (\<lambda>l. label l \<noteq> fst x) (map ?mk (filter ?ne (enumerate (Suc n) xs)))
                 = map ?mk (filter ?ne (enumerate (Suc n) xs))"
      by (simp only: filter_True)
    then show ?thesis using 0 by (cases x) simp
  next
    case (Suc j)
    then have j: "j < length xs" using Cons.prems(2) by simp
    then have "fst (xs ! j) \<noteq> fst x" using Cons.prems(1) by (auto simp: image_iff) (metis nth_mem)
    with Cons.IH [of j "Suc n"] Cons.prems(1) j Suc show ?thesis
      by (cases x) simp
  qed
qed

lemma emptied_entry:
  assumes "distinct (map fst repo_data)" and "i < length repo_data"
  shows "plot_lines (chart (repo_data[i := (fst (repo_data ! i), [])]))
           = filter (\<lambda>l. label l \<noteq> fst (repo_data ! i)) (plot_lines (chart repo_data))"
  unfolding plot_lines_chart by (rule emptied_entry_general [OF assms])

lemma filter_label_other:
  "a \<noteq> b \<Longrightarrow>
   filter (\<lambda>l. label l = b) (filter (\<lambda>l. label l \<noteq> a) ls) = filter (\<lambda>l. label l = b) ls"
  by (induction ls) auto

text \<open>Taking an entry out of the mapping itself does move the entries after it to other
  colours.\<close>

lemma dropping_an_entry_shifts_colors:
  "map (\<lambda>l. (label l, color l)) (plot_lines (chart three_repos))
     = [(''bittner/pyclean'', ''#1f77b4''), (''behave/behave-django'', ''#ff7f0e''),
        (''behave/behave'', ''#2ca02c'')]
   \<and> map (\<lambda>l. (label l, color l)) (plot_lines (chart (tl three_repos)))
     = [(''behave/behave-django'', ''#1f77b4''), (''behave/behave'', ''#ff7f0e'')]"
  by (simp add: chart_def three_repos_def COLORS_def)

subsection \<open>A bound for every server\<close>

text \<open>Whatever the server answers, one call of \<open>get_star_history\<close> returns after at most
  100 requests.\<close>

lemma collect_stars_at_most_100_requests:
  "length (sent (snd (collect_stars strptime srv GITHUB_TOKEN repo w))) \<le> length (sent w) + 100"
proof (cases "\<exists>owner name. split_on CHR ''/'' repo = [owner, name]")
  case True
  then obtain owner name where sp: "split_on CHR ''/'' repo = [owner, name]" by blast
  let ?w0 = "py_print (''Fetching star data for '' @ repo @ ''...'') w"
  let ?run = "fetch_pages strptime srv repo (stargazers_url owner name)
      (request_headers GITHUB_TOKEN) 1 [] ?w0"
  have "?run = (fst ?run, snd ?run)" by simp
  from fetch_pages_trace [OF this] obtain n where
    "n \<le> Suc (MAX_PAGES - 1)"
    "sent (snd ?run) = sent ?w0 @ map (page_request (stargazers_url owner name)
                                        (request_headers GITHUB_TOKEN)) [1..<1 + n]"
    by blast
  then have "length (sent (snd ?run)) \<le> length (sent w) + 100"
    by (simp add: py_print_def MAX_PAGES_def)
  then show ?thesis by (simp only: collect_stars_split [OF sp])
next
  case False
  then have "collect_stars strptime srv GITHUB_TOKEN repo w = (Inl ValueError, w)"
    by (auto simp: collect_stars_def split: list.splits)
  then show ?thesis by simp
qed

lemma get_star_history_at_most_100_requests:
  "length (sent (snd (get_star_history strptime srv GITHUB_TOKEN repo w))) \<le> length (sent w) + 100"
  using collect_stars_at_most_100_requests [of strptime srv GITHUB_TOKEN repo w]
  by (cases "collect_stars strptime srv GITHUB_TOKEN repo w")
     (auto simp: get_star_history_def py_print_def split: sum.splits)

subsection \<open>Malformed pages\<close>

lemma item_fails_iff:
  "(\<exists>e. item_starred_at strptime item = Inl e)
     \<longleftrightarrow> lacks_starred_at item \<or> bad_starred_at strptime item"
  by (cases item)
     (auto simp: item_starred_at_def lacks_starred_at_def bad_starred_at_def
           split: option.splits json.splits)

lemma append_starred_fails:
  "list_ex (\<lambda>item. lacks_starred_at item \<or> bad_starred_at strptime item) items \<Longrightarrow>
   \<exists>e. append_starred strptime items stars = Inl e"
proof -
  assume "list_ex (\<lambda>item. lacks_starred_at item \<or> bad_starred_at strptime item) items"
  then obtain item where "item \<in> set items"
    "lacks_starred_at item \<or> bad_starred_at strptime item"
    by (auto simp: list_ex_iff)
  then obtain e where "item \<in> set items" "item_starred_at strptime item = Inl e"
    using item_fails_iff [of strptime item] by blast
  then show ?thesis by (rule append_starred_bad)
qed

lemma fetch_page_malformed:
  assumes "malformed_page strptime (srv (sent w) (page_request u hs page))"
  shows "\<exists>e. fetch_page strptime srv repo u hs page stars w =
           Raise e (w\<lparr>sent := sent w @ [page_request u hs page]\<rparr>)"
proof -
  let ?r = "srv (sent w) (page_request u hs page)"
  from assms have ok: "status_code ?r = 200" by (simp add: malformed_page_def)
  show ?thesis
  proof (cases "json_body ?r")
    case None
    with ok show ?thesis by (simp add: fetch_page_def requests_get_def)
  next
    case (Some data)
    with assms have t: "truthy data" by (simp add: malformed_page_def)
    show ?thesis
    proof (cases "py_iter data")
      case (Inl e)
      with ok Some t show ?thesis by (simp add: fetch_page_def requests_get_def)
    next
      case (Inr items)
      with assms Some have
        "list_ex (\<lambda>item. lacks_starred_at item \<or> bad_starred_at strptime item) items"
        by (simp add: malformed_page_def)
      from append_starred_fails [OF this] obtain e where
        "append_starred strptime items stars = Inl e"
        by blast
      with ok Some t Inr show ?thesis by (simp add: fetch_page_def requests_get_def)
    qed
  qed
qed

lemma received_first: "received srv (xs @ x # ys) (length xs) = srv xs x"
  by (simp add: received_def)

lemma received_append: "j < length xs \<Longrightarrow> received srv (xs @ ys) j = received srv xs j"
  by (simp add: received_def nth_append)

lemma fetch_pages_malformed:
  "fetch_pages strptime srv repo u hs page stars w = (res, w') \<Longrightarrow>
   length (sent w) \<le> j \<Longrightarrow> j < length (sent w') \<Longrightarrow>
   malformed_page strptime (received srv (sent w') j) \<Longrightarrow>
   (\<exists>e. res = Inl e) \<and> length (sent w') = Suc j"
proof (induction strptime srv repo u hs page stars w arbitrary: res w' rule: fetch_pages.induct)
  case (1 strptime srv repo u hs page stars w)
  note step = fetch_page_world [where strptime=strptime and srv=srv and repo=repo and u=u
      and hs=hs and page=page and stars=stars and w=w]
  let ?req = "page_request u hs page"
  from fetch_pages_trace [OF "1.prems"(1)] obtain n where n: "1 \<le> n"
    "sent w' = sent w @ map (page_request u hs) [page..<page + n]"
    by blast
  then have tr: "sent w' = sent w @ ?req # map (page_request u hs) [Suc page..<page + n]"
    by (simp add: upt_rec)
  show ?case
  proof (cases "j = length (sent w)")
    case True
    then have "received srv (sent w') j = srv (sent w) ?req"
      by (simp only: tr received_first)
    with "1.prems"(4) have "malformed_page strptime (srv (sent w) ?req)" by simp
    from fetch_page_malformed [where srv = srv and w = w and strptime = strptime and u = u
        and hs = hs and page = page and repo = repo and stars = stars, OF this] obtain e where
      "fetch_page strptime srv repo u hs page stars w = Raise e (w\<lparr>sent := sent w @ [?req]\<rparr>)"
      by blast
    with "1.prems"(1) have "res = Inl e" "w' = w\<lparr>sent := sent w @ [?req]\<rparr>"
      by (simp_all add: fetch_pages.simps [of strptime srv repo u hs page])
    with True show ?thesis by simp
  next
    case False
    with "1.prems"(2) have later: "length (sent w) < j" by simp
    show ?thesis
    proof (cases "fetch_page strptime srv repo u hs page stars w")
      case (Raise e w1)
      with "1.prems"(1) step have "sent w' = sent w @ [?req]"
        by (auto simp: fetch_pages.simps [of strptime srv repo u hs page])
      with later "1.prems"(3) show ?thesis by simp
    next
      case (Break s w1)
      with "1.prems"(1) step have "sent w' = sent w @ [?req]"
        by (auto simp: fetch_pages.simps [of strptime srv repo u hs page])
      with later "1.prems"(3) show ?thesis by simp
    next
      case (Continue s w1)
      with step have w1: "sent w1 = sent w @ [?req]" by auto
      from Continue "1.prems"(1) have
        run: "fetch_pages strptime srv repo u hs (page + 1) s w1 = (res, w')"
        by (simp add: fetch_pages.simps [of strptime srv repo u hs page])
      have "length (sent w1) \<le> j" using later w1 by simp
      from "1.IH" [OF Continue run this "1.prems"(3,4)] show ?thesis .
    qed
  qed
qed

lemma get_star_history_malformed:
  assumes "get_star_history strptime srv GITHUB_TOKEN repo w = (res, w')"
    and "length (sent w) \<le> j" and "j < length (sent w')"
    and "malformed_page strptime (received srv (sent w') j)"
  shows "(\<exists>e. res = Inl e) \<and> length (sent w') = Suc j"
proof (cases "\<exists>owner name. split_on CHR ''/'' repo = [owner, name]")
  case True
  then obtain owner name where sp: "split_on CHR ''/'' repo = [owner, name]" by blast
  let ?w0 = "py_print (''Fetching star data for '' @ repo @ ''...'') w"
  obtain r1 w1 where run: "fetch_pages strptime srv repo (stargazers_url owner name)
      (request_headers GITHUB_TOKEN) 1 [] ?w0 = (r1, w1)"
    by (cases "fetch_pages strptime srv repo (stargazers_url owner name)
      (request_headers GITHUB_TOKEN) 1 [] ?w0")
  then have c: "collect_stars strptime srv GITHUB_TOKEN repo w = (r1, w1)"
    by (simp only: collect_stars_split [OF sp])
  have s: "sent w' = sent w1"
    using assms(1) c by (cases r1) (auto simp: get_star_history_def py_print_def)
  have "length (sent ?w0) \<le> j" using assms(2) by (simp add: py_print_sent)
  from fetch_pages_malformed [OF run this] assms(3,4) s
  have "(\<exists>e. r1 = Inl e) \<and> length (sent w1) = Suc j" by simp
  then show ?thesis
    using assms(1) c s by (auto simp: get_star_history_def)
next
  case False
  then have "collect_stars strptime srv GITHUB_TOKEN repo w = (Inl ValueError, w)"
    by (auto simp: collect_stars_def split: list.splits)
  with assms(1) have "w' = w" by (simp add: get_star_history_def)
  with assms(2,3) show ?thesis by simp
qed

lemma fetch_repos_malformed:
  "fetch_repos strptime srv GITHUB_TOKEN repos repo_data w = (res, w') \<Longrightarrow>
   length (sent w) \<le> j \<Longrightarrow> j < length (sent w') \<Longrightarrow>
   malformed_page strptime (received srv (sent w') j) \<Longrightarrow>
   (\<exists>e. res = Inl e) \<and> length (sent w') = Suc j"
proof (induction repos arbitrary: repo_data w)
  case Nil
  then show ?case by simp
next
  case (Cons repo repos)
  obtain r1 w1 where g: "get_star_history strptime srv GITHUB_TOKEN repo w = (r1, w1)"
    by (cases "get_star_history strptime srv GITHUB_TOKEN repo w")
  from get_star_history_world [OF g] obtain rs1 where w1: "sent w1 = sent w @ rs1" by blast
  show ?case
  proof (cases r1)
    case (Inl e)
    with g Cons.prems(1) have "res = Inl e" "w' = w1" by simp_all
    with get_star_history_malformed [OF g Cons.prems(2)] Cons.prems(3,4) show ?thesis by simp
  next
    case (Inr data)
    with g Cons.prems(1) have rest:
      "fetch_repos strptime srv GITHUB_TOKEN repos (AList.update repo data repo_data) w1 = (res, w')"
      by simp
    from fetch_repos_world [OF rest] obtain rs2 where w': "sent w' = sent w1 @ rs2" by blast
    show ?thesis
    proof (cases "j < length (sent w1)")
      case True
      then have "received srv (sent w') j = received srv (sent w1) j"
        by (simp only: w' received_append)
      with Cons.prems(4) have "malformed_page strptime (received srv (sent w1) j)" by simp
      from get_star_history_malformed [OF g Cons.prems(2) True this] Inr show ?thesis by auto
    next
      case False
      then have "length (sent w1) \<le> j" by simp
      from Cons.IH [OF rest this Cons.prems(3,4)] show ?thesis .
    qed
  qed
qed

lemma main_sent:
  "sent (snd (main strptime srv GITHUB_TOKEN w))
     = sent (snd (fetch_repos strptime srv GITHUB_TOKEN REPOS [] (warn_token GITHUB_TOKEN w)))"
  by (cases "fetch_repos strptime srv GITHUB_TOKEN REPOS [] (warn_token GITHUB_TOKEN w)")
     (auto simp: main_def py_print_def generate_chart_world split: sum.splits)

lemma main_malformed:
  assumes "length (sent w) \<le> j" and "j < length (sent (snd (main strptime srv GITHUB_TOKEN w)))"
    and "malformed_page strptime (received srv (sent (snd (main strptime srv GITHUB_TOKEN w))) j)"
  shows "\<exists>e w'. main strptime srv GITHUB_TOKEN w = (Inl e, w')
           \<and> files w' = files w \<and> dirs w' = dirs w \<and> length (sent w') = Suc j"
proof -
  let ?w0 = "warn_token GITHUB_TOKEN w"
  obtain res w' where f: "fetch_repos strptime srv GITHUB_TOKEN REPOS [] ?w0 = (res, w')"
    by (cases "fetch_repos strptime srv GITHUB_TOKEN REPOS [] ?w0")
  have s: "sent (snd (main strptime srv GITHUB_TOKEN w)) = sent w'"
    by (simp add: main_sent f)
  have "length (sent ?w0) \<le> j" using assms(1) by (simp add: warn_token_world)
  from fetch_repos_malformed [OF f this] assms(2,3) s
  obtain e where e: "res = Inl e" and l: "length (sent w') = Suc j" by auto
  from fetch_repos_world [OF f] have "files w' = files w" "dirs w' = dirs w"
    by (simp_all add: warn_token_world)
  with main_raises [OF f [unfolded e]] l show ?thesis by blast
qed

lemma get_star_history_malformed_after:
  assumes repo: "split_on CHR ''/'' repo = [owner, name]"
    and u: "u = stargazers_url owner name" and hs: "hs = request_headers GITHUB_TOKEN"
    and k: "k < MAX_PAGES"
    and script: "\<forall>p. 1 \<le> p \<and> p \<le> k \<longrightarrow>
                   page_stars strptime (page_response srv (sent w) u hs p) = Some (ts p)
                   \<and> PER_PAGE \<le> length (ts p)"
    and bad: "malformed_page strptime (page_response srv (sent w) u hs (Suc k))"
  shows "\<exists>e. fst (get_star_history strptime srv GITHUB_TOKEN repo w) = Inl e"
proof -
  let ?w0 = "py_print (''Fetching star data for '' @ repo @ ''...'') w"
  have "\<forall>p. 1 \<le> p \<and> p < 1 + k \<longrightarrow>
             page_stars strptime (srv (sent ?w0 @ map (page_request u hs) [1..<p])
                                      (page_request u hs p)) = Some (ts p)
             \<and> PER_PAGE \<le> length (ts p)"
    using script by (auto simp: page_response_def py_print_sent)
  moreover have "1 + k \<le> MAX_PAGES" using k by simp
  ultimately obtain w1 where w1:
    "fetch_pages strptime srv repo u hs 1 [] ?w0 =
       fetch_pages strptime srv repo u hs (1 + k) ([] @ concat (map ts [1..<1 + k])) w1"
    "sent w1 = sent ?w0 @ map (page_request u hs) [1..<1 + k]"
    using fetch_pages_full_prefix [of 1 k strptime srv ?w0 u hs ts repo "[]"] by blast
  have "malformed_page strptime (srv (sent w1) (page_request u hs (1 + k)))"
    using bad by (simp add: page_response_def w1(2) py_print_sent)
  from fetch_page_malformed [where srv = srv and w = w1 and strptime = strptime and u = u
        and hs = hs and page = "1 + k" and repo = repo
        and stars = "[] @ concat (map ts [1..<1 + k])", OF this]
  obtain e where "fetch_page strptime srv repo u hs (1 + k) ([] @ concat (map ts [1..<1 + k])) w1
      = Raise e (w1\<lparr>sent := sent w1 @ [page_request u hs (1 + k)]\<rparr>)"
    by blast
  then have "fetch_pages strptime srv repo u hs 1 [] ?w0
      = (Inl e, w1\<lparr>sent := sent w1 @ [page_request u hs (1 + k)]\<rparr>)"
    by (simp only: w1(1) fetch_pages.simps [of strptime srv repo u hs "1 + k"] flow.case)
  then have "fst (collect_stars strptime srv GITHUB_TOKEN repo w) = Inl e"
    by (simp only: collect_stars_split [OF repo] u hs fst_conv)
  then show ?thesis
    by (simp only: get_star_history_fst sum.case) blast
qed

lemma html_run_sent:
  "sent (snd (main day_strptime html_after_first_server None stale_world))
     = [page_request ''https://api.github.com/repos/bittner/pyclean/stargazers''
          [(''Accept'', ''application/vnd.github.v3.star+json'')] 1,
        page_request
          ''https://api.github.com/repos/painless-software/python-cli-test-helpers/stargazers''
          [(''Accept'', ''application/vnd.github.v3.star+json'')] 1]"
  by (simp add: main_def REPOS_def warn_token_def token_set_def get_star_history_def
        collect_stars_def fetch_pages.simps fetch_page_def requests_get_def
        html_after_first_server_def html_page_def three_stars_server_def ok_response_def
        star_def item_starred_at_def day_strptime_def py_print_def stale_world_def
        page_request_def stargazers_url_def request_headers_def PER_PAGE_def
        any_values_def cumulative_def Let_def)

subsection \<open>A failure after some pages\<close>

lemma get_star_history_failure_after:
  assumes repo: "split_on CHR ''/'' repo = [owner, name]"
    and u: "u = stargazers_url owner name" and hs: "hs = request_headers GITHUB_TOKEN"
    and k: "k < MAX_PAGES"
    and script: "\<forall>p. 1 \<le> p \<and> p \<le> k \<longrightarrow>
                   page_stars strptime (page_response srv (sent w) u hs p) = Some (ts p)
                   \<and> PER_PAGE \<le> length (ts p)"
    and fail: "page_response srv (sent w) u hs (Suc k) = failure" "status_code failure \<noteq> 200"
  shows "\<exists>w' ls. get_star_history strptime srv GITHUB_TOKEN repo w
                  = (Inr (cumulative (concat (map ts [1..<Suc k]))), w')
           \<and> sent w' = sent w @ map (page_request u hs) [1..<Suc (Suc k)]
           \<and> stdout w' = stdout w @ ls @
               [''Error fetching data for '' @ repo @ '': '' @ str_int (status_code failure),
                ''Response: '' @ text_body failure,
                ''  Total stars: '' @ str_nat (length (concat (map ts [1..<Suc k])))]
           \<and> dirs w' = dirs w \<and> files w' = files w"
proof -
  let ?w0 = "py_print (''Fetching star data for '' @ repo @ ''...'') w"
  have "\<forall>p. 1 \<le> p \<and> p < 1 + k \<longrightarrow>
             page_stars strptime (srv (sent ?w0 @ map (page_request u hs) [1..<p])
                                      (page_request u hs p)) = Some (ts p)
             \<and> PER_PAGE \<le> length (ts p)"
    using script by (auto simp: page_response_def py_print_sent)
  moreover have "1 + k \<le> MAX_PAGES" using k by simp
  moreover have "srv (sent ?w0 @ map (page_request u hs) [1..<1 + k])
                     (page_request u hs (1 + k)) = failure"
    using fail(1) by (simp add: page_response_def py_print_sent)
  ultimately obtain w1 ls where
    run: "fetch_pages strptime srv repo u hs 1 [] ?w0 = (Inr ([] @ concat (map ts [1..<1 + k])), w1)"
    and w1: "sent w1 = sent ?w0 @ map (page_request u hs) [1..<Suc (1 + k)]"
      "stdout w1 = stdout ?w0 @ ls @
                 [''Error fetching data for '' @ repo @ '': '' @ str_int (status_code failure),
                  ''Response: '' @ text_body failure]"
      "dirs w1 = dirs ?w0" "files w1 = files ?w0"
    using fetch_pages_failure_after [of 1 k strptime srv ?w0 u hs ts failure repo "[]"] fail(2)
    by blast
  define w' where "w' = py_print (''  Total stars: '' @ str_nat (length (concat (map ts [1..<Suc k])))) w1"
  have "get_star_history strptime srv GITHUB_TOKEN repo w
          = (Inr (cumulative (concat (map ts [1..<Suc k]))), w')"
    using run by (simp add: get_star_history_def collect_stars_split [OF repo] u hs w'_def)
  moreover have "sent w' = sent w @ map (page_request u hs) [1..<Suc (Suc k)]"
    using w1(1) by (simp add: w'_def py_print_def)
  moreover have "stdout w' = stdout w @ (''Fetching star data for '' @ repo @ ''...'') # ls @
               [''Error fetching data for '' @ repo @ '': '' @ str_int (status_code failure),
                ''Response: '' @ text_body failure,
                ''  Total stars: '' @ str_nat (length (concat (map ts [1..<Suc k])))]"
    using w1(2) by (simp add: w'_def py_print_def)
  moreover have "dirs w' = dirs w" "files w' = files w"
    using w1(3,4) by (simp_all add: w'_def py_print_def)
  ultimately show ?thesis
    by (intro exI [of _ w'] exI [of _ "(''Fetching star data for '' @ repo @ ''...'') # ls"]) simp
qed

lemma cumulative_replicate: "cumulative (replicate n x) = zip (replicate n x) [1..int n]"
proof -
  have "sort (replicate n x) = replicate n x"
    by (simp add: sorted_sort_id)
  then have "map fst (cumulative (replicate n x)) = replicate n x"
    by (simp only: cumulative_dates)
  moreover have "map snd (cumulative (replicate n x)) = [1..int n]"
    by (simp only: cumulative_counts length_replicate)
  ultimately show ?thesis
    by (metis zip_map_fst_snd)
qed

subsection \<open>The entries of the mapping, call by call\<close>

lemma update_absent: "k \<notin> fst ` set al \<Longrightarrow> AList.update k v al = al @ [(k, v)]"
  by (induction al) auto

lemma length_fetch_worlds:
  "length (fetch_worlds strptime srv GITHUB_TOKEN repos w) = length repos"
  by (induction repos arbitrary: w) simp_all

lemma fetch_repos_entries:
  "fetch_repos strptime srv GITHUB_TOKEN repos repo_data w = (Inr result, w') \<Longrightarrow>
   distinct repos \<Longrightarrow> set repos \<inter> fst ` set repo_data = {} \<Longrightarrow>
   result = repo_data @
     map (\<lambda>(repo, wi). (repo, projr (fst (get_star_history strptime srv GITHUB_TOKEN repo wi))))
       (zip repos (fetch_worlds strptime srv GITHUB_TOKEN repos w))"
proof (induction repos arbitrary: repo_data w)
  case Nil
  then show ?case by simp
next
  case (Cons repo repos)
  obtain r1 w1 where g: "get_star_history strptime srv GITHUB_TOKEN repo w = (r1, w1)"
    by (cases "get_star_history strptime srv GITHUB_TOKEN repo w")
  with Cons.prems(1) obtain data where r1: "r1 = Inr data"
    and rest: "fetch_repos strptime srv GITHUB_TOKEN repos (AList.update repo data repo_data) w1
                 = (Inr result, w')"
    by (cases r1) auto
  have absent: "repo \<notin> fst ` set repo_data" using Cons.prems(3) by auto
  then have upd: "AList.update repo data repo_data = repo_data @ [(repo, data)]"
    by (rule update_absent)
  have "set repos \<inter> fst ` set (repo_data @ [(repo, data)]) = {}"
    using Cons.prems(2,3) by auto
  from Cons.IH [OF rest [unfolded upd] _ this] Cons.prems(2)
  have "result = (repo_data @ [(repo, data)]) @
     map (\<lambda>(repo, wi). (repo, projr (fst (get_star_history strptime srv GITHUB_TOKEN repo wi))))
       (zip repos (fetch_worlds strptime srv GITHUB_TOKEN repos w1))"
    by simp
  then show ?case using g r1 by simp
qed

lemma fetch_repos_returns_each:
  "fetch_repos strptime srv GITHUB_TOKEN repos repo_data w = (Inr result, w') \<Longrightarrow>
   i < length repos \<Longrightarrow>
   \<exists>data. fst (get_star_history strptime srv GITHUB_TOKEN (repos ! i)
                 (fetch_worlds strptime srv GITHUB_TOKEN repos w ! i)) = Inr data"
proof (induction repos arbitrary: repo_data w i)
  case Nil
  then show ?case by simp
next
  case (Cons repo repos)
  obtain r1 w1 where g: "get_star_history strptime srv GITHUB_TOKEN repo w = (r1, w1)"
    by (cases "get_star_history strptime srv GITHUB_TOKEN repo w")
  with Cons.prems(1) obtain data where r1: "r1 = Inr data"
    and rest: "fetch_repos strptime srv GITHUB_TOKEN repos (AList.update repo data repo_data) w1
                 = (Inr result, w')"
    by (cases r1) auto
  show ?case
  proof (cases i)
    case 0
    with g r1 show ?thesis by simp
  next
    case (Suc i')
    then have "i' < length repos" using Cons.prems(2) by simp
    from Cons.IH [OF rest this] Suc g show ?thesis by simp
  qed
qed

lemma fetch_repos_nth:
  assumes "fetch_repos strptime srv GITHUB_TOKEN repos [] w = (Inr result, w')"
    and "distinct repos" and "i < length repos"
  shows "fst (result ! i) = repos ! i"
    and "fst (get_star_history strptime srv GITHUB_TOKEN (repos ! i)
               (fetch_worlds strptime srv GITHUB_TOKEN repos w ! i)) = Inr (snd (result ! i))"
proof -
  from fetch_repos_entries [OF assms(1,2)]
  have r: "result =
     map (\<lambda>(repo, wi). (repo, projr (fst (get_star_history strptime srv GITHUB_TOKEN repo wi))))
       (zip repos (fetch_worlds strptime srv GITHUB_TOKEN repos w))"
    by simp
  have "result ! i = (repos ! i,
      projr (fst (get_star_history strptime srv GITHUB_TOKEN (repos ! i)
               (fetch_worlds strptime srv GITHUB_TOKEN repos w ! i))))"
    using assms(3) by (simp add: r length_fetch_worlds)
  moreover from fetch_repos_returns_each [OF assms(1,3)] obtain data where
    "fst (get_star_history strptime srv GITHUB_TOKEN (repos ! i)
               (fetch_worlds strptime srv GITHUB_TOKEN repos w ! i)) = Inr data"
    by blast
  ultimately show "fst (result ! i) = repos ! i"
    and "fst (get_star_history strptime srv GITHUB_TOKEN (repos ! i)
               (fetch_worlds strptime srv GITHUB_TOKEN repos w ! i)) = Inr (snd (result ! i))"
    by simp_all
qed

lemma length_concat_lower:
  "(\<forall>x \<in> set xs. c \<le> length (f x)) \<Longrightarrow> length xs * c \<le> length (concat (map f xs))"
  by (induction xs) (auto simp: add_mono)

lemma sort_replicate: "sort (replicate n x) = replicate n x"
  by (simp add: sorted_sort_id)

lemma map_of_nth:
  "distinct (map fst xs) \<Longrightarrow> i < length xs \<Longrightarrow> map_of xs (fst (xs ! i)) = Some (snd (xs ! i))"
  by (metis map_of_is_SomeI nth_mem prod.collapse)

lemma length_REPOS: "length REPOS = 6"
  by (simp add: REPOS_def)

subsection \<open>Runs against servers that remember\<close>

lemma rate_limited_fetch:
  "fst (fetch_repos day_strptime rate_limited_server None REPOS [] (warn_token None fresh_world))
     = Inr pyclean_only_data"
  by (simp add: REPOS_def warn_token_def token_set_def get_star_history_def
        collect_stars_def fetch_pages.simps fetch_page_def requests_get_def
        rate_limited_server_def forbidden_def three_stars_server_def ok_response_def
        star_def item_starred_at_def day_strptime_def py_print_def fresh_world_def
        page_request_def stargazers_url_def request_headers_def PER_PAGE_def
        cumulative_def pyclean_only_data_def Let_def)

lemma rate_limited_second_world:
  "sent (fetch_worlds day_strptime rate_limited_server None REPOS (warn_token None fresh_world) ! 1)
     = [page_request ''https://api.github.com/repos/bittner/pyclean/stargazers''
          [(''Accept'', ''application/vnd.github.v3.star+json'')] 1]"
  by (simp add: REPOS_def warn_token_def token_set_def get_star_history_def
        collect_stars_def fetch_pages.simps fetch_page_def requests_get_def
        rate_limited_server_def forbidden_def three_stars_server_def ok_response_def
        star_def item_starred_at_def day_strptime_def py_print_def fresh_world_def
        page_request_def stargazers_url_def request_headers_def PER_PAGE_def
        cumulative_def Let_def)

lemma one_full_page_series:
  assumes "split_on CHR ''/'' repo = [owner, name]"
  shows "fst (get_star_history day_strptime one_full_page_server GITHUB_TOKEN repo w)
           = Inr (zip (replicate 100 1) [1..100])"
proof -
  let ?u = "stargazers_url owner name"
  let ?hs = "request_headers GITHUB_TOKEN"
  have k: "(1::nat) < MAX_PAGES" by (simp add: MAX_PAGES_def)
  have script: "\<forall>p. 1 \<le> p \<and> p \<le> 1 \<longrightarrow>
          page_stars day_strptime (page_response one_full_page_server (sent w) ?u ?hs p)
            = Some (replicate 100 1)
          \<and> PER_PAGE \<le> length (replicate 100 (1::nat))"
    by (auto simp: page_response_def one_full_page_server_def page_stars_full page_request_def
          PER_PAGE_def)
  have fail: "page_response one_full_page_server (sent w) ?u ?hs (Suc 1) = not_found"
    "status_code not_found \<noteq> 200"
    by (simp_all add: page_response_def one_full_page_server_def page_request_def not_found_def)
  from get_star_history_failure_after
    [where ts = "\<lambda>p. replicate 100 1" and strptime = day_strptime and srv = one_full_page_server,
     OF assms refl refl k script fail]
  have "fst (get_star_history day_strptime one_full_page_server GITHUB_TOKEN repo w)
          = Inr (cumulative (concat (map (\<lambda>p. replicate 100 1) [1..<Suc 1])))"
    by auto
  also have "concat (map (\<lambda>p. replicate 100 (1::nat)) [1..<Suc 1]) = replicate 100 1"
    by simp
  finally show ?thesis by (simp only: cumulative_replicate) simp
qed

lemma one_full_page_fetch:
  "fst (fetch_repos day_strptime one_full_page_server GITHUB_TOKEN REPOS [] w)
     = Inr (map (\<lambda>r. (r, zip (replicate 100 1) [1..100])) REPOS)"
proof -
  have "\<forall>r \<in> set REPOS. \<forall>w. fst (get_star_history day_strptime one_full_page_server GITHUB_TOKEN r w)
          = Inr (zip (replicate 100 1) [1..100])"
    using REPOS_split one_full_page_series by blast
  then have "fst (fetch_repos day_strptime one_full_page_server GITHUB_TOKEN REPOS [] w)
          = Inr (fold (\<lambda>r. AList.update r (zip (replicate 100 1) [1..100])) REPOS [])"
    by (rule fetch_repos_fold)
  also have "fold (\<lambda>r. AList.update r (zip (replicate 100 (1::nat)) [1..100::int])) REPOS []
               = map (\<lambda>r. (r, zip (replicate 100 1) [1..100])) REPOS"
    by (simp add: REPOS_def)
  finally show ?thesis .
qed

subsection \<open>Successful pages\<close>

lemma get_star_history_requested_pages:
  assumes repo: "split_on CHR ''/'' repo = [owner, name]"
    and u: "u = stargazers_url owner name" and hs: "hs = request_headers GITHUB_TOKEN"
    and script: "\<forall>p. 1 \<le> p \<and> p \<le> MAX_PAGES
                       \<and> (\<forall>q. 1 \<le> q \<and> q < p \<longrightarrow> PER_PAGE \<le> length (ts q)) \<longrightarrow>
                   page_stars strptime (page_response srv (sent w) u hs p) = Some (ts p)"
  shows "\<exists>n w'. get_star_history strptime srv GITHUB_TOKEN repo w
                  = (Inr (cumulative (concat (map ts [1..<Suc n]))), w')
           \<and> 1 \<le> n \<and> n \<le> MAX_PAGES
           \<and> (\<forall>p. 1 \<le> p \<and> p < n \<longrightarrow> PER_PAGE \<le> length (ts p))
           \<and> (length (ts n) < PER_PAGE \<or> n = MAX_PAGES)
           \<and> sent w' = sent w @ map (page_request u hs) [1..<Suc n]"
proof -
  let ?w0 = "py_print (''Fetching star data for '' @ repo @ ''...'') w"
  have "\<forall>p. 1 \<le> p \<and> p \<le> MAX_PAGES
               \<and> (\<forall>q. 1 \<le> q \<and> q < p \<longrightarrow> PER_PAGE \<le> length (ts q)) \<longrightarrow>
          page_stars strptime (srv (sent ?w0 @ map (page_request u hs) [1..<p])
                                   (page_request u hs p)) = Some (ts p)"
    using script by (simp add: page_response_def py_print_sent)
  moreover have "(1::nat) \<le> MAX_PAGES" by (simp add: MAX_PAGES_def)
  ultimately have "\<exists>n w'. 1 \<le> n \<and> n \<le> MAX_PAGES
           \<and> (\<forall>p. 1 \<le> p \<and> p < n \<longrightarrow> PER_PAGE \<le> length (ts p))
           \<and> (length (ts n) < PER_PAGE \<or> n = MAX_PAGES)
           \<and> fetch_pages strptime srv repo u hs 1 [] ?w0
               = (Inr ([] @ concat (map ts [1..<Suc n])), w')
           \<and> sent w' = sent ?w0 @ map (page_request u hs) [1..<Suc n]
           \<and> (\<exists>ls. stdout w' = stdout ?w0 @ ls) \<and> dirs w' = dirs ?w0 \<and> files w' = files ?w0"
    by (rule fetch_pages_requested)
  then obtain n w1 where n: "1 \<le> n" "n \<le> MAX_PAGES"
      "\<forall>p. 1 \<le> p \<and> p < n \<longrightarrow> PER_PAGE \<le> length (ts p)"
      "length (ts n) < PER_PAGE \<or> n = MAX_PAGES"
    and run: "fetch_pages strptime srv repo u hs 1 [] ?w0 = (Inr ([] @ concat (map ts [1..<Suc n])), w1)"
    and w1: "sent w1 = sent ?w0 @ map (page_request u hs) [1..<Suc n]"
    by blast
  define w' where "w' = py_print (''  Total stars: '' @ str_nat (length (concat (map ts [1..<Suc n])))) w1"
  have "get_star_history strptime srv GITHUB_TOKEN repo w
          = (Inr (cumulative (concat (map ts [1..<Suc n]))), w')"
    using run by (simp add: get_star_history_def collect_stars_split [OF repo] u hs w'_def)
  moreover have "sent w' = sent w @ map (page_request u hs) [1..<Suc n]"
    using w1 by (simp add: w'_def py_print_def)
  ultimately show ?thesis
    using n by (intro exI [of _ n] exI [of _ w']) simp
qed

lemma concat_replicate_pages:
  "concat (map (\<lambda>p. replicate m x) xs) = replicate (length xs * m) x"
  by (induction xs) (simp_all add: replicate_add)

lemma sort_two_pages: "sort (replicate 100 (1::nat) @ [2, 1, 3]) = replicate 101 1 @ [2, 3]"
proof -
  have "(101::nat) = Suc 100" by simp
  then have "replicate 101 (1::nat) = replicate 100 1 @ [1]"
    by (simp only: replicate_Suc replicate_append_same)
  then have "mset (replicate 101 (1::nat) @ [2, 3]) = mset (replicate 100 (1::nat) @ [2, 1, 3])"
    by simp
  moreover have "sorted (replicate 101 (1::nat) @ [2, 3])"
    by (simp add: sorted_append)
  ultimately show ?thesis
    by (rule properties_for_sort)
qed

section \<open>The claims\<close>

text \<open>
  C1. Whenever the collection phase of \<open>get_star_history\<close> ends with a list \<open>stars\<close> of
  \<open>N\<close> timestamps, in whatever order they arrived, the function returns a series of exactly
  \<open>N\<close> pairs; the counts are \<open>1, 2, ..., N\<close>; the timestamps are the collected ones, sorted
  non-decreasing (the same multiset). In particular \<open>[T2, T1, T3]\<close> with \<open>T1 < T2 < T3\<close>
  gives \<open>[(T1, 1), (T2, 2), (T3, 3)]\<close>.
\<close>

theorem get_star_history_cumulative:
  assumes "collect_stars strptime srv GITHUB_TOKEN repo w = (Inr stars, w')"
  shows "\<exists>series. fst (get_star_history strptime srv GITHUB_TOKEN repo w) = Inr series
           \<and> length series = length stars
           \<and> map snd series = [1..int (length stars)]
           \<and> map fst series = sort stars
           \<and> sorted (map fst series)
           \<and> mset (map fst series) = mset stars
           \<and> (\<forall>T1 T2 T3. T1 < T2 \<and> T2 < T3 \<and> stars = [T2, T1, T3]
                 \<longrightarrow> series = [(T1, 1), (T2, 2), (T3, 3)])"
proof -
  have "fst (get_star_history strptime srv GITHUB_TOKEN repo w) = Inr (cumulative stars)"
    using assms by (simp add: get_star_history_def)
  moreover have "\<forall>T1 T2 T3. T1 < T2 \<and> T2 < T3 \<and> stars = [T2, T1, T3]
                 \<longrightarrow> cumulative stars = [(T1, 1), (T2, 2), (T3, 3)]"
    using cumulative_three by blast
  ultimately show ?thesis
    using cumulative_counts [of stars] cumulative_dates [of stars] cumulative_length [of stars]
      cumulative_mset [of stars] cumulative_sorted [of stars]
    by blast
qed

text \<open>The example of the claim, run against a server that lists the three stars out of
  order.\<close>

theorem get_star_history_cumulative_witness:
  "fst (collect_stars day_strptime three_stars_server None ''bittner/pyclean'' fresh_world)
     = Inr [2, 1, 3]
   \<and> fst (get_star_history day_strptime three_stars_server None ''bittner/pyclean'' fresh_world)
     = Inr [(1, 1), (2, 2), (3, 3)]"
proof -
  let ?run = "collect_stars day_strptime three_stars_server None ''bittner/pyclean'' fresh_world"
  have stars: "fst ?run = Inr [2, 1, 3]"
    by (simp add: collect_stars_def fetch_pages.simps fetch_page_def requests_get_def
          three_stars_server_def ok_response_def star_def item_starred_at_def day_strptime_def
          PER_PAGE_def py_print_def Let_def)
  then have "?run = (Inr [2, 1, 3], snd ?run)"
    by (metis prod.collapse)
  from get_star_history_cumulative [OF this] stars show ?thesis
    by auto
qed

text \<open>
  C2, as amended. Let every page that the loop gets to request (page \<open>p\<close> is requested only
  when all the pages before it were full) be answered with a successful page response
  (status 200, a JSON list of well-formed items; \<open>ts p\<close> are the timestamps of page \<open>p\<close>,
  answered after the pages before it); nothing is assumed about a page that is never
  requested. Then \<open>get_star_history\<close> returns. It requests the pages \<open>1, 2, ..., n\<close> in this
  order, each with \<open>per_page = 100\<close>, and nothing else, where \<open>n\<close> is the first page with
  fewer than 100 items (an empty page included) or the cap of 100, whichever comes first:
  every page before \<open>n\<close> is full, and page \<open>n\<close> is short or \<open>n = 100\<close>. So \<open>n\<close> requests are
  sent, at most 100. The series returned holds every item of these \<open>n\<close> pages: its
  timestamps are those of the pages, sorted, and its counts are \<open>1, 2, ...\<close> up to their
  number. It has at most 10,000 entries provided none of the \<open>n\<close> pages holds more than the
  100 items asked for.
\<close>

theorem pagination_requests_and_bound:
  assumes repo: "split_on CHR ''/'' repo = [owner, name]"
    and u: "u = stargazers_url owner name" and hs: "hs = request_headers GITHUB_TOKEN"
    and script: "\<forall>p. 1 \<le> p \<and> p \<le> MAX_PAGES
                       \<and> (\<forall>q. 1 \<le> q \<and> q < p \<longrightarrow> PER_PAGE \<le> length (ts q)) \<longrightarrow>
                   page_stars strptime (page_response srv (sent w) u hs p) = Some (ts p)"
  shows "\<exists>n series w'.
           get_star_history strptime srv GITHUB_TOKEN repo w = (Inr series, w')
           \<and> 1 \<le> n \<and> n \<le> 100
           \<and> (\<forall>p. 1 \<le> p \<and> p < n \<longrightarrow> 100 \<le> length (ts p))
           \<and> (length (ts n) < 100 \<or> n = 100)
           \<and> sent w' = sent w @ map (\<lambda>p. \<lparr>url = u, headers = hs,
                                           params = [(''page'', p), (''per_page'', 100)]\<rparr>) [1..<Suc n]
           \<and> length (sent w') - length (sent w) = n
           \<and> length series = length (concat (map ts [1..<Suc n]))
           \<and> map fst series = sort (concat (map ts [1..<Suc n]))
           \<and> map snd series = [1..int (length (concat (map ts [1..<Suc n])))]
           \<and> ((\<forall>p. 1 \<le> p \<and> p \<le> n \<longrightarrow> length (ts p) \<le> 100) \<longrightarrow> length series \<le> 10000)"
proof -
  from get_star_history_requested_pages [OF repo u hs script]
  obtain n w' where run: "get_star_history strptime srv GITHUB_TOKEN repo w
                  = (Inr (cumulative (concat (map ts [1..<Suc n]))), w')"
    and n: "1 \<le> n" "n \<le> MAX_PAGES"
      "\<forall>p. 1 \<le> p \<and> p < n \<longrightarrow> PER_PAGE \<le> length (ts p)"
      "length (ts n) < PER_PAGE \<or> n = MAX_PAGES"
    and sent0: "sent w' = sent w @ map (page_request u hs) [1..<Suc n]"
    by blast
  let ?stars = "concat (map ts [1..<Suc n])"
  have sent: "sent w' = sent w @ map (\<lambda>p. \<lparr>url = u, headers = hs,
                                           params = [(''page'', p), (''per_page'', 100)]\<rparr>) [1..<Suc n]"
    using sent0 by (simp add: page_request_100)
  have count: "length (sent w') - length (sent w) = n"
    by (simp add: sent)
  have bound: "length (cumulative ?stars) \<le> 10000"
    if "\<forall>p. 1 \<le> p \<and> p \<le> n \<longrightarrow> length (ts p) \<le> 100"
  proof -
    have "\<forall>p \<in> set [1..<Suc n]. length (ts p) \<le> 100" using that by auto
    from length_concat_bound [OF this]
    have "length ?stars \<le> length [1..<Suc n] * 100" .
    also have "\<dots> \<le> 100 * 100" using n(2) by (simp add: MAX_PAGES_def)
    finally show ?thesis by (simp add: cumulative_length)
  qed
  show ?thesis
    using run n sent count bound cumulative_length [of ?stars] cumulative_dates [of ?stars]
      cumulative_counts [of ?stars]
    by (intro exI [of _ n] exI [of _ "cumulative ?stars"] exI [of _ w'])
       (simp add: MAX_PAGES_def PER_PAGE_def)
qed

text \<open>A full first page, three stars on the second, and no third page on the server: two
  requests, and a series of 103 entries.\<close>

theorem pagination_requests_and_bound_witness:
  "fst (get_star_history day_strptime two_page_server None ''bittner/pyclean'' fresh_world)
     = Inr (zip (replicate 101 1 @ [2, 3]) [1..103])
   \<and> sent (snd (get_star_history day_strptime two_page_server None ''bittner/pyclean'' fresh_world))
     = [\<lparr>url = ''https://api.github.com/repos/bittner/pyclean/stargazers'',
         headers = [(''Accept'', ''application/vnd.github.v3.star+json'')],
         params = [(''page'', 1), (''per_page'', 100)]\<rparr>,
        \<lparr>url = ''https://api.github.com/repos/bittner/pyclean/stargazers'',
         headers = [(''Accept'', ''application/vnd.github.v3.star+json'')],
         params = [(''page'', 2), (''per_page'', 100)]\<rparr>]
   \<and> status_code (two_page_server
        (sent (snd (get_star_history day_strptime two_page_server None ''bittner/pyclean''
                      fresh_world)))
        \<lparr>url = ''https://api.github.com/repos/bittner/pyclean/stargazers'',
         headers = [(''Accept'', ''application/vnd.github.v3.star+json'')],
         params = [(''page'', 3), (''per_page'', 100)]\<rparr>) = 404"
proof -
  let ?u = "stargazers_url ''bittner'' ''pyclean''"
  let ?ts = "\<lambda>p::nat. if p = 1 then replicate 100 (1::nat) else [2, 1, 3]"
  have script: "\<forall>p. 1 \<le> p \<and> p \<le> MAX_PAGES
                  \<and> (\<forall>q. 1 \<le> q \<and> q < p \<longrightarrow> PER_PAGE \<le> length (?ts q)) \<longrightarrow>
          page_stars day_strptime
            (page_response two_page_server (sent fresh_world) ?u (request_headers None) p)
            = Some (?ts p)"
  proof (intro allI impI)
    fix p :: nat
    assume a: "1 \<le> p \<and> p \<le> MAX_PAGES
                  \<and> (\<forall>q. 1 \<le> q \<and> q < p \<longrightarrow> PER_PAGE \<le> length (?ts q))"
    have "p = 1 \<or> p = 2"
    proof (rule ccontr)
      assume "\<not> (p = 1 \<or> p = 2)"
      with a have "1 \<le> (2::nat) \<and> 2 < p" by auto
      with a have "PER_PAGE \<le> length (?ts 2)" by blast
      then show False by (simp add: PER_PAGE_def)
    qed
    then show "page_stars day_strptime
            (page_response two_page_server (sent fresh_world) ?u (request_headers None) p)
            = Some (?ts p)"
      by (auto simp: page_response_def two_page_server_def page_stars_full page_stars_three
            page_request_def PER_PAGE_def)
  qed
  from pagination_requests_and_bound
    [where ts = ?ts and w = fresh_world and srv = two_page_server and strptime = day_strptime,
     OF split_pyclean refl refl script]
  obtain n series w' where run:
    "get_star_history day_strptime two_page_server None ''bittner/pyclean'' fresh_world
       = (Inr series, w')"
    and n: "1 \<le> n" "\<forall>p. 1 \<le> p \<and> p < n \<longrightarrow> 100 \<le> length (?ts p)"
       "length (?ts n) < 100 \<or> n = 100"
    and sent: "sent w' = sent fresh_world @ map (\<lambda>p. \<lparr>url = ?u, headers = request_headers None,
                                           params = [(''page'', p), (''per_page'', 100)]\<rparr>) [1..<Suc n]"
    and dates: "map fst series = sort (concat (map ?ts [1..<Suc n]))"
    and counts: "map snd series = [1..int (length (concat (map ?ts [1..<Suc n])))]"
    by blast
  have "n \<noteq> 1" using n(3) by auto
  moreover have "\<not> 2 < n"
  proof
    assume "2 < n"
    then have "1 \<le> (2::nat) \<and> 2 < n" by simp
    with n(2) have "100 \<le> length (?ts 2)" by blast
    then show False by simp
  qed
  ultimately have n2: "n = 2" using n(1) by simp
  have upt: "[1..<Suc 2] = [1, 2]" by (simp add: upt_rec)
  have stars: "concat (map ?ts [1..<Suc n]) = replicate 100 1 @ [2, 1, 3]"
    unfolding n2 upt by simp
  have "series = zip (map fst series) (map snd series)"
    by (simp add: zip_map_fst_snd)
  also have "\<dots> = zip (replicate 101 1 @ [2, 3]) [1..103]"
    unfolding dates counts stars sort_two_pages by simp
  finally have series: "series = zip (replicate 101 1 @ [2, 3]) [1..103]" .
  have "sent w' = [\<lparr>url = ?u, headers = request_headers None,
                     params = [(''page'', 1), (''per_page'', 100)]\<rparr>,
                   \<lparr>url = ?u, headers = request_headers None,
                     params = [(''page'', 2), (''per_page'', 100)]\<rparr>]"
    using sent unfolding n2 upt by (simp add: fresh_world_def)
  then show ?thesis
    using run series
    by (simp add: stargazers_url_def headers_None two_page_server_def not_found_def)
qed

text \<open>
  C2 as stated bounds the star events of a repository by 10,000 for every sequence of
  successful page responses. A server that puts 101 items on every page answers each of the
  100 requests with a successful page, and the series has 10,100 entries: the code keeps
  every item of a page, also of one that is larger than asked for.
\<close>

theorem oversize_pages_exceed_10000_counterexample:
  "fst (get_star_history day_strptime oversize_server None ''bittner/pyclean'' fresh_world)
     = Inr (zip (replicate 10100 1) [1..10100])
   \<and> length (sent (snd (get_star_history day_strptime oversize_server None ''bittner/pyclean''
                          fresh_world))) = 100
   \<and> map (\<lambda>j. page_stars day_strptime
               (received oversize_server
                  (sent (snd (get_star_history day_strptime oversize_server None
                                ''bittner/pyclean'' fresh_world))) j)) [0..<100]
     = replicate 100 (Some (replicate 101 1))"
proof -
  let ?u = "stargazers_url ''bittner'' ''pyclean''"
  let ?ts = "\<lambda>p::nat. replicate 101 (1::nat)"
  have page: "page_stars day_strptime (oversize_server history req) = Some (replicate 101 1)"
    for history req
    by (simp add: oversize_server_def page_stars_def ok_response_def
          append_starred_replicate [where t = 1] item_starred_at_star day_strptime_simps)
  have script: "\<forall>p. 1 \<le> p \<and> p \<le> MAX_PAGES
                  \<and> (\<forall>q. 1 \<le> q \<and> q < p \<longrightarrow> PER_PAGE \<le> length (?ts q)) \<longrightarrow>
          page_stars day_strptime
            (page_response oversize_server (sent fresh_world) ?u (request_headers None) p)
            = Some (?ts p)"
    by (simp add: page_response_def page)
  from get_star_history_requested_pages
    [where ts = ?ts and w = fresh_world and srv = oversize_server and strptime = day_strptime,
     OF split_pyclean refl refl script]
  obtain n w' where run:
    "get_star_history day_strptime oversize_server None ''bittner/pyclean'' fresh_world
       = (Inr (cumulative (concat (map ?ts [1..<Suc n]))), w')"
    and n: "length (?ts n) < PER_PAGE \<or> n = MAX_PAGES"
    and sent: "sent w' = sent fresh_world @ map (page_request ?u (request_headers None)) [1..<Suc n]"
    by blast
  have n100: "n = 100" using n by (simp add: PER_PAGE_def MAX_PAGES_def)
  have stars: "concat (map ?ts [1..<Suc n]) = replicate 10100 1"
    unfolding n100 by (simp only: concat_replicate_pages) simp
  have series: "cumulative (concat (map ?ts [1..<Suc n])) = zip (replicate 10100 1) [1..10100]"
    unfolding stars by (simp only: cumulative_replicate) simp
  have len: "length (sent w') = 100"
    by (simp add: sent n100 fresh_world_def)
  have "map (\<lambda>j. page_stars day_strptime (received oversize_server (sent w') j)) [0..<100]
          = map (\<lambda>j. Some (replicate 101 1)) [0..<100]"
    by (simp only: received_def page)
  also have "\<dots> = replicate 100 (Some (replicate 101 1))"
    by (simp add: map_replicate_const)
  finally show ?thesis
    using run series len by simp
qed

text \<open>
  C4. If the first \<open>k\<close> pages of a repository are answered with full successful pages and
  the request for page \<open>k + 1\<close>, sent after them, is answered with a status other than 200,
  then \<open>get_star_history\<close> still returns a series: its timestamps are the timestamps of
  those \<open>k\<close> pages, sorted (at least \<open>100 k\<close> of them, none lost and none added), and its
  counts are \<open>1, 2, ...\<close> up to their number. The requests sent are exactly those for the
  pages \<open>1, ..., k + 1\<close> (the failed request is the last one: no retry), the console ends
  with the status line, the response body and the total, and the file system is as it was.
\<close>

theorem failure_after_k_pages_keeps_partial_results:
  assumes repo: "split_on CHR ''/'' repo = [owner, name]"
    and u: "u = stargazers_url owner name" and hs: "hs = request_headers GITHUB_TOKEN"
    and k: "k < MAX_PAGES"
    and script: "\<forall>p. 1 \<le> p \<and> p \<le> k \<longrightarrow>
                   page_stars strptime (page_response srv (sent w) u hs p) = Some (ts p)
                   \<and> PER_PAGE \<le> length (ts p)"
    and fail: "page_response srv (sent w) u hs (Suc k) = failure" "status_code failure \<noteq> 200"
  shows "\<exists>series w' ls.
           get_star_history strptime srv GITHUB_TOKEN repo w = (Inr series, w')
           \<and> length series = length (concat (map ts [1..<Suc k]))
           \<and> k * 100 \<le> length series
           \<and> map fst series = sort (concat (map ts [1..<Suc k]))
           \<and> mset (map fst series) = mset (concat (map ts [1..<Suc k]))
           \<and> map snd series = [1..int (length (concat (map ts [1..<Suc k])))]
           \<and> sent w' = sent w @ map (page_request u hs) [1..<Suc (Suc k)]
           \<and> stdout w' = stdout w @ ls @
               [''Error fetching data for '' @ repo @ '': '' @ str_int (status_code failure),
                ''Response: '' @ text_body failure,
                ''  Total stars: '' @ str_nat (length (concat (map ts [1..<Suc k])))]
           \<and> dirs w' = dirs w \<and> files w' = files w"
proof -
  let ?stars = "concat (map ts [1..<Suc k])"
  from get_star_history_failure_after [OF repo u hs k script fail]
  obtain w' ls where run:
    "get_star_history strptime srv GITHUB_TOKEN repo w = (Inr (cumulative ?stars), w')"
    "sent w' = sent w @ map (page_request u hs) [1..<Suc (Suc k)]"
    "stdout w' = stdout w @ ls @
               [''Error fetching data for '' @ repo @ '': '' @ str_int (status_code failure),
                ''Response: '' @ text_body failure,
                ''  Total stars: '' @ str_nat (length ?stars)]"
    "dirs w' = dirs w" "files w' = files w"
    by blast
  have "\<forall>p \<in> set [1..<Suc k]. 100 \<le> length (ts p)"
    using script by (auto simp: PER_PAGE_def)
  from length_concat_lower [OF this]
  have "length [1..<Suc k] * 100 \<le> length ?stars" .
  moreover have "length [1..<Suc k] = k" by simp
  ultimately have "k * 100 \<le> length ?stars" by (simp only:)
  then have "k * 100 \<le> length (cumulative ?stars)" by (simp only: cumulative_length)
  with run show ?thesis
    using cumulative_length [of ?stars] cumulative_dates [of ?stars]
      cumulative_mset [of ?stars] cumulative_counts [of ?stars]
    by (intro exI [of _ "cumulative ?stars"] exI [of _ w'] exI [of _ ls]) simp
qed

text \<open>One full page, then a 404: the series numbers the hundred stars of the first page.\<close>

theorem failure_after_k_pages_keeps_partial_results_witness:
  "fst (get_star_history day_strptime one_full_page_server None ''bittner/pyclean'' fresh_world)
     = Inr (zip (replicate 100 1) [1..100])
   \<and> map params (sent (snd (get_star_history day_strptime one_full_page_server None
                               ''bittner/pyclean'' fresh_world)))
     = [[(''page'', 1), (''per_page'', 100)], [(''page'', 2), (''per_page'', 100)]]
   \<and> ''Error fetching data for bittner/pyclean: 404''
       \<in> set (stdout (snd (get_star_history day_strptime one_full_page_server None
                               ''bittner/pyclean'' fresh_world)))
   \<and> ''Response: Not Found''
       \<in> set (stdout (snd (get_star_history day_strptime one_full_page_server None
                               ''bittner/pyclean'' fresh_world)))"
proof -
  let ?u = "stargazers_url ''bittner'' ''pyclean''"
  have k: "(1::nat) < MAX_PAGES" by (simp add: MAX_PAGES_def)
  have script: "\<forall>p. 1 \<le> p \<and> p \<le> 1 \<longrightarrow>
          page_stars day_strptime
            (page_response one_full_page_server (sent fresh_world) ?u (request_headers None) p)
            = Some (replicate 100 1)
          \<and> PER_PAGE \<le> length (replicate 100 (1::nat))"
    by (auto simp: page_response_def one_full_page_server_def page_stars_full page_request_def
          PER_PAGE_def)
  have fail: "page_response one_full_page_server (sent fresh_world) ?u (request_headers None) (Suc 1)
                = not_found"
    "status_code not_found \<noteq> 200"
    by (simp_all add: page_response_def one_full_page_server_def page_request_def not_found_def)
  from failure_after_k_pages_keeps_partial_results
    [where ts = "\<lambda>p. replicate 100 1" and w = fresh_world and strptime = day_strptime
       and srv = one_full_page_server,
     OF split_pyclean refl refl k script fail]
  obtain series w' ls where run:
    "get_star_history day_strptime one_full_page_server None ''bittner/pyclean'' fresh_world
       = (Inr series, w')"
    and dates: "map fst series = sort (concat (map (\<lambda>p. replicate 100 (1::nat)) [1..<Suc 1]))"
    and counts: "map snd series
                   = [1..int (length (concat (map (\<lambda>p. replicate 100 (1::nat)) [1..<Suc 1])))]"
    and sent: "sent w' = sent fresh_world @ map (page_request ?u (request_headers None)) [1..<Suc (Suc 1)]"
    and out: "stdout w' = stdout fresh_world @ ls @
               [''Error fetching data for '' @ ''bittner/pyclean'' @ '': '' @ str_int (status_code not_found),
                ''Response: '' @ text_body not_found,
                ''  Total stars: '' @ str_nat (length (concat (map (\<lambda>p. replicate 100 (1::nat)) [1..<Suc 1])))]"
    by blast
  have "map fst series = replicate 100 1" using dates by (simp add: sort_replicate)
  moreover have "map snd series = [1..100]" using counts by simp
  ultimately have "series = zip (replicate 100 1) [1..100]"
    by (metis zip_map_fst_snd)
  with run sent out show ?thesis
    by (simp add: fresh_world_def page_request_def PER_PAGE_def not_found_def str_int_def
          str_nat.simps upt_rec)
qed

text \<open>
  C5. If the first request for a repository is answered with a status other than 200,
  \<open>get_star_history\<close> returns the empty series. The renderer cannot raise (its result is a
  world, not an error), and what it plots is, in the order of the mapping, exactly the
  entries whose series is not empty, each with its whole series: an empty entry adds no line
  and changes no other line's data.
\<close>

theorem first_page_failure_is_empty_and_skipped:
  assumes "split_on CHR ''/'' repo = [owner, name]"
    and "status_code (srv (sent w) (page_request (stargazers_url owner name)
                                       (request_headers GITHUB_TOKEN) 1)) \<noteq> 200"
  shows "fst (get_star_history (strptime :: string \<Rightarrow> ('t::linorder) option) srv GITHUB_TOKEN repo w)
           = Inr []
         \<and> (\<forall>repo_data :: (string \<times> ('t \<times> int) list) list.
               map (\<lambda>l. (label l, zip (xdata l) (ydata l))) (plot_lines (chart repo_data))
                 = filter (\<lambda>(repo, data). data \<noteq> []) repo_data)"
  using get_star_history_first_page_failed [where srv = srv and w = w and strptime = strptime, OF assms]
    plotted_series
  by blast

text \<open>A repository the server does not know, and a mapping with an empty entry in the
  middle.\<close>

theorem first_page_failure_is_empty_and_skipped_witness:
  "fst (get_star_history day_strptime not_found_server None ''behave/behave'' fresh_world) = Inr []
   \<and> map (\<lambda>l. (label l, zip (xdata l) (ydata l)))
       (plot_lines (chart [(''bittner/pyclean'', [(1::nat, 1), (2, 2)]),
                           (''behave/behave'', []),
                           (''behave/behave-django'', [(3, 1)])]))
     = [(''bittner/pyclean'', [(1, 1), (2, 2)]), (''behave/behave-django'', [(3, 1)])]"
proof -
  have sp: "split_on CHR ''/'' ''behave/behave'' = [''behave'', ''behave'']" by simp
  have "status_code (not_found_server (sent fresh_world)
          (page_request (stargazers_url ''behave'' ''behave'') (request_headers None) 1)) \<noteq> 200"
    by (simp add: not_found_server_def not_found_def)
  from first_page_failure_is_empty_and_skipped
    [where srv = not_found_server and w = fresh_world and strptime = day_strptime, OF sp this]
  show ?thesis by simp
qed

text \<open>
  C9. Only a status other than 200 is contained. Let the response that a run of \<open>main\<close>
  receives to one of its requests (the request at position \<open>j\<close> among the requests sent,
  answered knowing the requests before it) have status 200 and either a body that is not
  valid JSON, or a decoded body that is true and cannot be iterated, or a list holding an
  item without \<open>starred_at\<close> (a record that lacks the key, or no record at all) or an item
  whose \<open>starred_at\<close> is not a string that \<open>strptime\<close> accepts. Then \<open>main\<close> raises: it
  returns no exit code and the process ends with code 1, this request is the last one
  sent, so no other repository is fetched after it, and the file system is as it was, so
  no chart is written. Likewise a call of \<open>get_star_history\<close> that receives such a response
  raises, in particular when the response follows \<open>k\<close> full successful pages.
\<close>

theorem malformed_page_received_aborts_run:
  assumes "length (sent w) \<le> j"
    and "j < length (sent (snd (main strptime srv GITHUB_TOKEN w)))"
    and "malformed_page strptime (received srv (sent (snd (main strptime srv GITHUB_TOKEN w))) j)"
  shows "(\<exists>e. fst (main strptime srv GITHUB_TOKEN w) = Inl e)
         \<and> process_exit_code (fst (main strptime srv GITHUB_TOKEN w)) = 1
         \<and> files (snd (main strptime srv GITHUB_TOKEN w)) = files w
         \<and> dirs (snd (main strptime srv GITHUB_TOKEN w)) = dirs w
         \<and> length (sent (snd (main strptime srv GITHUB_TOKEN w))) = Suc j
         \<and> (\<forall>repo w0 i.
               length (sent w0) \<le> i
               \<and> i < length (sent (snd (get_star_history strptime srv GITHUB_TOKEN repo w0)))
               \<and> malformed_page strptime
                   (received srv (sent (snd (get_star_history strptime srv GITHUB_TOKEN repo w0))) i)
               \<longrightarrow> (\<exists>e. fst (get_star_history strptime srv GITHUB_TOKEN repo w0) = Inl e))
         \<and> (\<forall>repo owner name w0 k ts.
               split_on CHR ''/'' repo = [owner, name] \<and> k < MAX_PAGES
               \<and> (\<forall>p. 1 \<le> p \<and> p \<le> k \<longrightarrow>
                     page_stars strptime
                       (page_response srv (sent w0) (stargazers_url owner name)
                          (request_headers GITHUB_TOKEN) p) = Some (ts p)
                     \<and> PER_PAGE \<le> length (ts p))
               \<and> malformed_page strptime
                   (page_response srv (sent w0) (stargazers_url owner name)
                      (request_headers GITHUB_TOKEN) (Suc k))
               \<longrightarrow> (\<exists>e. fst (get_star_history strptime srv GITHUB_TOKEN repo w0) = Inl e))"
proof -
  from main_malformed [OF assms] obtain e w' where m:
    "main strptime srv GITHUB_TOKEN w = (Inl e, w')" "files w' = files w" "dirs w' = dirs w"
    "length (sent w') = Suc j"
    by blast
  then have run: "(\<exists>e. fst (main strptime srv GITHUB_TOKEN w) = Inl e)
         \<and> process_exit_code (fst (main strptime srv GITHUB_TOKEN w)) = 1
         \<and> files (snd (main strptime srv GITHUB_TOKEN w)) = files w
         \<and> dirs (snd (main strptime srv GITHUB_TOKEN w)) = dirs w
         \<and> length (sent (snd (main strptime srv GITHUB_TOKEN w))) = Suc j"
    by (simp add: process_exit_code_def)
  have one: "\<exists>e. fst (get_star_history strptime srv GITHUB_TOKEN repo w0) = Inl e"
    if "length (sent w0) \<le> i"
      "i < length (sent (snd (get_star_history strptime srv GITHUB_TOKEN repo w0)))"
      "malformed_page strptime
         (received srv (sent (snd (get_star_history strptime srv GITHUB_TOKEN repo w0))) i)"
    for repo w0 i
  proof -
    have "get_star_history strptime srv GITHUB_TOKEN repo w0
            = (fst (get_star_history strptime srv GITHUB_TOKEN repo w0),
               snd (get_star_history strptime srv GITHUB_TOKEN repo w0))"
      by simp
    from get_star_history_malformed [OF this that] show ?thesis by blast
  qed
  have two: "\<exists>e. fst (get_star_history strptime srv GITHUB_TOKEN repo w0) = Inl e"
    if "split_on CHR ''/'' repo = [owner, name]" "k < MAX_PAGES"
      "\<forall>p. 1 \<le> p \<and> p \<le> k \<longrightarrow>
                     page_stars strptime
                       (page_response srv (sent w0) (stargazers_url owner name)
                          (request_headers GITHUB_TOKEN) p) = Some (ts p)
                     \<and> PER_PAGE \<le> length (ts p)"
      "malformed_page strptime
                   (page_response srv (sent w0) (stargazers_url owner name)
                      (request_headers GITHUB_TOKEN) (Suc k))"
    for repo owner name w0 k ts
    by (rule get_star_history_malformed_after [OF that(1) refl refl that(2,3,4)])
  from run one two show ?thesis by blast
qed

text \<open>Three stars for the first repository, then a page of HTML with status 200: the run
  ends at the second request, and the older chart is still there.\<close>

theorem malformed_page_received_aborts_run_witness:
  "received html_after_first_server
       (sent (snd (main day_strptime html_after_first_server None stale_world))) 1 = html_page
   \<and> (\<exists>e. fst (main day_strptime html_after_first_server None stale_world) = Inl e)
   \<and> process_exit_code (fst (main day_strptime html_after_first_server None stale_world)) = 1
   \<and> files (snd (main day_strptime html_after_first_server None stale_world)) OUTPUT_FILE
       = Some (Bytes ''an older chart'')
   \<and> length (sent (snd (main day_strptime html_after_first_server None stale_world))) = 2"
proof -
  let ?run = "main day_strptime html_after_first_server None stale_world"
  have r: "received html_after_first_server (sent (snd ?run)) 1 = html_page"
    by (simp add: html_run_sent received_def html_after_first_server_def)
  have a: "length (sent stale_world) \<le> 1" by (simp add: stale_world_def)
  have b: "1 < length (sent (snd ?run))" by (simp add: html_run_sent)
  have c: "malformed_page day_strptime (received html_after_first_server (sent (snd ?run)) 1)"
    by (simp only: r) (simp add: malformed_page_def html_page_def)
  from malformed_page_received_aborts_run [OF a b c] r show ?thesis
    by (simp add: stale_world_def)
qed

text \<open>
  C3, as amended. The exit code of the process is 0 if and only if the fetch phase of
  \<open>main\<close> completes (no call of \<open>get_star_history\<close> raises) with a mapping in which at least
  one series is not empty, however many of the others are empty. It is 1 if and only if
  the fetch phase completes with every series empty, or an exception ends it. When the
  fetch phase completes, the mapping has one series for every configured repository, the
  one that its call of \<open>get_star_history\<close> returned, and \<open>main\<close> returns the code.
\<close>

theorem process_exit_code_by_data:
  "(process_exit_code (fst (main strptime srv GITHUB_TOKEN w)) = 0 \<longleftrightarrow>
      (\<exists>repo_data w'.
          fetch_repos strptime srv GITHUB_TOKEN REPOS [] (warn_token GITHUB_TOKEN w)
            = (Inr repo_data, w')
          \<and> (\<exists>kv \<in> set repo_data. snd kv \<noteq> [])))
   \<and> (process_exit_code (fst (main strptime srv GITHUB_TOKEN w)) = 1 \<longleftrightarrow>
      (\<exists>e w'. fetch_repos strptime srv GITHUB_TOKEN REPOS [] (warn_token GITHUB_TOKEN w)
                 = (Inl e, w'))
      \<or> (\<exists>repo_data w'.
          fetch_repos strptime srv GITHUB_TOKEN REPOS [] (warn_token GITHUB_TOKEN w)
            = (Inr repo_data, w')
          \<and> (\<forall>kv \<in> set repo_data. snd kv = [])))
   \<and> (\<forall>repo_data w'.
         fetch_repos strptime srv GITHUB_TOKEN REPOS [] (warn_token GITHUB_TOKEN w)
           = (Inr repo_data, w')
         \<longrightarrow> map fst repo_data = REPOS
             \<and> (\<forall>i. i < length REPOS \<longrightarrow>
                   fst (get_star_history strptime srv GITHUB_TOKEN (REPOS ! i)
                          (fetch_worlds strptime srv GITHUB_TOKEN REPOS
                             (warn_token GITHUB_TOKEN w) ! i))
                     = Inr (snd (repo_data ! i)))
             \<and> fst (main strptime srv GITHUB_TOKEN w)
                 = Inr (if \<exists>kv \<in> set repo_data. snd kv \<noteq> [] then 0 else 1))"
proof -
  let ?w0 = "warn_token GITHUB_TOKEN w"
  obtain res w1 where f: "fetch_repos strptime srv GITHUB_TOKEN REPOS [] ?w0 = (res, w1)"
    by (cases "fetch_repos strptime srv GITHUB_TOKEN REPOS [] ?w0")
  show ?thesis
  proof (cases res)
    case (Inl e)
    with f have "fst (main strptime srv GITHUB_TOKEN w) = Inl e" by (simp add: main_raises)
    with f Inl show ?thesis by (simp add: process_exit_code_def)
  next
    case (Inr repo_data)
    with f have run: "fetch_repos strptime srv GITHUB_TOKEN REPOS [] ?w0 = (Inr repo_data, w1)"
      by simp
    have keys: "map fst repo_data = REPOS"
      using fetch_repos_keys [OF run distinct_REPOS] by simp
    have each: "\<forall>i. i < length REPOS \<longrightarrow>
                   fst (get_star_history strptime srv GITHUB_TOKEN (REPOS ! i)
                          (fetch_worlds strptime srv GITHUB_TOKEN REPOS ?w0 ! i))
                     = Inr (snd (repo_data ! i))"
      using fetch_repos_nth(2) [OF run distinct_REPOS] by blast
    have m: "fst (main strptime srv GITHUB_TOKEN w)
               = Inr (if \<exists>kv \<in> set repo_data. snd kv \<noteq> [] then 0 else 1)"
      by (simp add: main_result [OF run] any_values_iff)
    show ?thesis
      using keys each m by (simp add: run process_exit_code_def)
  qed
qed

text \<open>One repository with stars and five without: exit code 0. No repository with stars:
  exit code 1.\<close>

theorem process_exit_code_by_data_witness:
  "process_exit_code (fst (main day_strptime pyclean_only_server None fresh_world)) = 0
   \<and> process_exit_code (fst (main day_strptime not_found_server None fresh_world)) = 1"
proof -
  let ?w0 = "warn_token None fresh_world"
  have a: "fetch_repos day_strptime pyclean_only_server None REPOS [] ?w0
          = (Inr pyclean_only_data, snd (fetch_repos day_strptime pyclean_only_server None REPOS [] ?w0))"
    using pyclean_only_fetch [of None ?w0] by (metis prod.collapse)
  have "\<exists>kv \<in> set pyclean_only_data. snd kv \<noteq> []"
    by (simp add: pyclean_only_data_def)
  with a have "\<exists>repo_data w'.
          fetch_repos day_strptime pyclean_only_server None REPOS [] ?w0 = (Inr repo_data, w')
          \<and> (\<exists>kv \<in> set repo_data. snd kv \<noteq> [])"
    by blast
  with process_exit_code_by_data [of day_strptime pyclean_only_server None fresh_world]
  have zero: "process_exit_code (fst (main day_strptime pyclean_only_server None fresh_world)) = 0"
    by blast
  have b: "fetch_repos day_strptime not_found_server None REPOS [] ?w0
          = (Inr (map (\<lambda>r. (r, [])) REPOS),
             snd (fetch_repos day_strptime not_found_server None REPOS [] ?w0))"
    using not_found_fetch [of day_strptime None ?w0] by (metis prod.collapse)
  have "\<forall>kv \<in> set (map (\<lambda>r. (r, [] :: (nat \<times> int) list)) REPOS). snd kv = []"
    by simp
  with b have "\<exists>repo_data w'.
          fetch_repos day_strptime not_found_server None REPOS [] ?w0 = (Inr repo_data, w')
          \<and> (\<forall>kv \<in> set repo_data. snd kv = [])"
    by blast
  with process_exit_code_by_data [of day_strptime not_found_server None fresh_world]
  have "process_exit_code (fst (main day_strptime not_found_server None fresh_world)) = 1"
    by blast
  with zero show ?thesis by simp
qed

text \<open>
  C3 as stated gives the exit code 0 whenever one configured repository produced a
  non-empty series. Against a server that answers the first request with three stars and
  every later one with a page of HTML, the first repository produces the series of the
  three stars, the call for the second repository raises, and the process ends with
  code 1.
\<close>

theorem exit_code_after_exception_counterexample:
  "hd REPOS = ''bittner/pyclean''
   \<and> fst (get_star_history day_strptime html_after_first_server None ''bittner/pyclean''
            (warn_token None fresh_world)) = Inr [(1, 1), (2, 2), (3, 3)]
   \<and> fst (main day_strptime html_after_first_server None fresh_world) = Inl JSONDecodeError
   \<and> process_exit_code (fst (main day_strptime html_after_first_server None fresh_world)) = 1"
  by (simp add: main_def REPOS_def warn_token_def token_set_def get_star_history_def
        collect_stars_def fetch_pages.simps fetch_page_def requests_get_def
        html_after_first_server_def html_page_def three_stars_server_def ok_response_def
        star_def item_starred_at_def day_strptime_def py_print_def fresh_world_def
        page_request_def stargazers_url_def request_headers_def PER_PAGE_def
        cumulative_def process_exit_code_def Let_def)

text \<open>
  C6. Let \<open>rs\<close> be the requests one run of \<open>main\<close> sends, for all repositories and pages.
  When \<open>GITHUB_TOKEN\<close> holds a credential (a non-empty string), every request of \<open>rs\<close>
  carries it in its \<open>Authorization\<close> header, after the scheme word \<open>token\<close>. When the
  variable is unset, no request of \<open>rs\<close> has an \<open>Authorization\<close> header, the first two lines
  printed are the warning, and the run goes on as usual: if the fetch yields data, the exit
  code is 0.
\<close>

theorem credential_on_every_request:
  "\<exists>rs ls. sent (snd (main strptime srv GITHUB_TOKEN w)) = sent w @ rs
     \<and> stdout (snd (main strptime srv GITHUB_TOKEN w)) = stdout w @ ls
     \<and> (\<forall>tok. GITHUB_TOKEN = Some tok \<and> tok \<noteq> [] \<longrightarrow>
           (\<forall>req \<in> set rs. map_of (headers req) ''Authorization'' = Some (''token '' @ tok)))
     \<and> (GITHUB_TOKEN = None \<longrightarrow>
           (\<forall>req \<in> set rs. map_of (headers req) ''Authorization'' = None)
           \<and> take 2 ls = [''Warning: GITHUB_TOKEN not set. API rate limits will be restrictive.'',
                          ''Set GITHUB_TOKEN environment variable for better rate limits.'']
           \<and> (\<forall>repo_data w'.
                 fetch_repos strptime srv GITHUB_TOKEN REPOS [] (warn_token GITHUB_TOKEN w)
                   = (Inr repo_data, w') \<and> any_values repo_data
                 \<longrightarrow> fst (main strptime srv GITHUB_TOKEN w) = Inr 0))"
proof -
  from main_world [of strptime srv GITHUB_TOKEN w] obtain rs ls where m:
    "sent (snd (main strptime srv GITHUB_TOKEN w)) = sent w @ rs"
    "\<forall>r \<in> set rs. headers r = request_headers GITHUB_TOKEN"
    "stdout (snd (main strptime srv GITHUB_TOKEN w)) = stdout (warn_token GITHUB_TOKEN w) @ ls"
    by blast
  define ls' where "ls' = (if token_set GITHUB_TOKEN then ls
     else ''Warning: GITHUB_TOKEN not set. API rate limits will be restrictive.''
          # ''Set GITHUB_TOKEN environment variable for better rate limits.'' # ls)"
  have out: "stdout (snd (main strptime srv GITHUB_TOKEN w)) = stdout w @ ls'"
    using m(3) by (simp add: ls'_def warn_token_def py_print_def)
  have some: "\<forall>req \<in> set rs. map_of (headers req) ''Authorization'' = Some (''token '' @ tok)"
    if "GITHUB_TOKEN = Some tok" "tok \<noteq> []" for tok
    using m(2) that by (simp add: authorization_header)
  have none: "\<forall>req \<in> set rs. map_of (headers req) ''Authorization'' = None"
    if "GITHUB_TOKEN = None"
    using m(2) that by (simp add: authorization_header)
  have warn: "take 2 ls' = [''Warning: GITHUB_TOKEN not set. API rate limits will be restrictive.'',
                          ''Set GITHUB_TOKEN environment variable for better rate limits.'']"
    if "GITHUB_TOKEN = None"
    using that by (simp add: ls'_def token_set_def)
  have ok: "fst (main strptime srv GITHUB_TOKEN w) = Inr 0"
    if "fetch_repos strptime srv GITHUB_TOKEN REPOS [] (warn_token GITHUB_TOKEN w) = (Inr repo_data, w')"
      "any_values repo_data" for repo_data w'
    using that by (simp add: main_result)
  show ?thesis
    using m(1) out some none warn ok
    by (intro exI [of _ rs] exI [of _ ls']) blast
qed

text \<open>Six requests with the credential, six without it, and exit code 0 without a
  credential.\<close>

theorem credential_on_every_request_witness:
  "map (\<lambda>req. map_of (headers req) ''Authorization'')
       (sent (snd (main day_strptime not_found_server (Some ''s3cret'') fresh_world)))
     = replicate 6 (Some ''token s3cret'')
   \<and> map (\<lambda>req. map_of (headers req) ''Authorization'')
       (sent (snd (main day_strptime not_found_server None fresh_world)))
     = replicate 6 None
   \<and> take 2 (stdout (snd (main day_strptime pyclean_only_server None fresh_world)))
       = [''Warning: GITHUB_TOKEN not set. API rate limits will be restrictive.'',
          ''Set GITHUB_TOKEN environment variable for better rate limits.'']
   \<and> fst (main day_strptime pyclean_only_server None fresh_world) = Inr 0"
proof -
  from credential_on_every_request [of day_strptime not_found_server "Some ''s3cret''" fresh_world]
  have "\<forall>req \<in> set (sent (snd (main day_strptime not_found_server (Some ''s3cret'') fresh_world))).
         map_of (headers req) ''Authorization'' = Some ''token s3cret''"
    by (auto simp: fresh_world_def)
  from map_constant [OF this]
  have a: "map (\<lambda>req. map_of (headers req) ''Authorization'')
       (sent (snd (main day_strptime not_found_server (Some ''s3cret'') fresh_world)))
     = replicate 6 (Some ''token s3cret'')"
    by (simp only: not_found_run_length)
  from credential_on_every_request [of day_strptime not_found_server None fresh_world]
  have "\<forall>req \<in> set (sent (snd (main day_strptime not_found_server None fresh_world))).
         map_of (headers req) ''Authorization'' = None"
    by (auto simp: fresh_world_def)
  from map_constant [OF this]
  have c: "map (\<lambda>req. map_of (headers req) ''Authorization'')
       (sent (snd (main day_strptime not_found_server None fresh_world)))
     = replicate 6 None"
    by (simp only: not_found_run_length)
  let ?w0 = "warn_token None fresh_world"
  have f: "fetch_repos day_strptime pyclean_only_server None REPOS [] ?w0
          = (Inr pyclean_only_data, snd (fetch_repos day_strptime pyclean_only_server None REPOS [] ?w0))"
    using pyclean_only_fetch [of None ?w0] by (metis prod.collapse)
  have v: "any_values pyclean_only_data"
    by (simp add: any_values_def pyclean_only_data_def)
  from credential_on_every_request [of day_strptime pyclean_only_server None fresh_world]
  obtain rs ls where b:
    "sent (snd (main day_strptime pyclean_only_server None fresh_world)) = sent fresh_world @ rs"
    "stdout (snd (main day_strptime pyclean_only_server None fresh_world)) = stdout fresh_world @ ls"
    "\<forall>req \<in> set rs. map_of (headers req) ''Authorization'' = None"
    "take 2 ls = [''Warning: GITHUB_TOKEN not set. API rate limits will be restrictive.'',
                          ''Set GITHUB_TOKEN environment variable for better rate limits.'']"
    "\<forall>repo_data w'.
                 fetch_repos day_strptime pyclean_only_server None REPOS [] ?w0
                   = (Inr repo_data, w') \<and> any_values repo_data
                 \<longrightarrow> fst (main day_strptime pyclean_only_server None fresh_world) = Inr 0"
    by auto
  from b(5) f v have "fst (main day_strptime pyclean_only_server None fresh_world) = Inr 0"
    by blast
  with a c b(2,4) show ?thesis
    by (simp add: fresh_world_def)
qed

text \<open>
  C7. On every run of \<open>main\<close> that reaches rendering (the fetch phase ends with a mapping in
  which some series is not empty), the file at the one fixed path
  \<open>star-history/star-history.svg\<close> holds the chart of that mapping, saved as SVG, whatever
  was or was not there before; every other file is as it was; the directory \<open>star-history\<close>
  exists afterwards, created if it was absent. Rendering over the output of an earlier
  rendering leaves the same file system as rendering alone, so nothing has to be cleaned up
  between runs.
\<close>

theorem chart_written_over_fixed_path:
  assumes "fetch_repos strptime srv GITHUB_TOKEN REPOS [] (warn_token GITHUB_TOKEN w)
             = (Inr repo_data, w')"
    and "any_values repo_data"
  shows "files (snd (main strptime srv GITHUB_TOKEN w))
           = (files w)([''star-history'', ''star-history.svg''] \<mapsto> Svg (chart repo_data) 100)
         \<and> dirs (snd (main strptime srv GITHUB_TOKEN w)) = insert [''star-history''] (dirs w)
         \<and> OUTPUT_FILE = [''star-history'', ''star-history.svg'']
         \<and> (\<forall>older w2. files (generate_chart repo_data (generate_chart older w2))
                           = files (generate_chart repo_data w2)
                      \<and> dirs (generate_chart repo_data (generate_chart older w2))
                           = dirs (generate_chart repo_data w2))"
proof -
  from fetch_repos_world [OF assms(1)] have "files w' = files w" "dirs w' = dirs w"
    by (simp_all add: warn_token_world)
  then show ?thesis
    using assms(2)
    by (simp add: main_result [OF assms(1)] py_print_def generate_chart_world
          OUTPUT_FILE_def OUTPUT_DIR_def CHART_DPI_def)
qed

text \<open>A run over an older file.\<close>

theorem chart_written_over_fixed_path_witness:
  "files stale_world [''star-history'', ''star-history.svg''] = Some (Bytes ''an older chart'')
   \<and> files (snd (main day_strptime pyclean_only_server None stale_world))
        [''star-history'', ''star-history.svg'']
       = Some (Svg (chart pyclean_only_data) 100)
   \<and> dirs (snd (main day_strptime pyclean_only_server None stale_world)) = {[''star-history'']}"
proof -
  let ?w0 = "warn_token None stale_world"
  have "fetch_repos day_strptime pyclean_only_server None REPOS [] ?w0
          = (Inr pyclean_only_data, snd (fetch_repos day_strptime pyclean_only_server None REPOS [] ?w0))"
    using pyclean_only_fetch [of None ?w0] by (metis prod.collapse)
  moreover have "any_values pyclean_only_data"
    by (simp add: any_values_def pyclean_only_data_def)
  ultimately show ?thesis
    using chart_written_over_fixed_path [of day_strptime pyclean_only_server None stale_world]
    by (simp add: stale_world_def OUTPUT_FILE_def OUTPUT_DIR_def)
qed

text \<open>
  C8, as amended. When the fetch phase of \<open>main\<close> ends, the keys of the mapping are the
  configured repositories, in the order of the configuration, so every configured
  repository has an entry and no key is absent: the entry of the \<open>i\<close>-th repository is the
  series that its call of \<open>get_star_history\<close> returned, in the world that the calls before
  it have left. A repository whose first request is answered with a status other than 200
  has the empty series under its key; one whose request for page \<open>k + 1\<close> is so answered
  after \<open>k\<close> full pages has the cumulative series of these pages under its key. This
  mapping is the one handed to \<open>generate_chart\<close>.
\<close>

theorem mapping_entry_for_every_configured_repository:
  assumes "fetch_repos strptime srv GITHUB_TOKEN REPOS [] (warn_token GITHUB_TOKEN w)
             = (Inr repo_data, w')"
  shows "map fst repo_data = REPOS
         \<and> (\<forall>repo \<in> set REPOS. \<exists>data. map_of repo_data repo = Some data)
         \<and> (\<forall>i. i < length REPOS \<longrightarrow>
               map_of repo_data (REPOS ! i) = Some (snd (repo_data ! i))
               \<and> fst (get_star_history strptime srv GITHUB_TOKEN (REPOS ! i)
                      (fetch_worlds strptime srv GITHUB_TOKEN REPOS (warn_token GITHUB_TOKEN w) ! i))
                   = Inr (snd (repo_data ! i)))
         \<and> (\<forall>i owner name.
               i < length REPOS \<and> split_on CHR ''/'' (REPOS ! i) = [owner, name]
               \<and> status_code
                   (page_response srv
                      (sent (fetch_worlds strptime srv GITHUB_TOKEN REPOS
                               (warn_token GITHUB_TOKEN w) ! i))
                      (stargazers_url owner name) (request_headers GITHUB_TOKEN) 1) \<noteq> 200
               \<longrightarrow> snd (repo_data ! i) = [])
         \<and> (\<forall>i owner name k ts.
               i < length REPOS \<and> split_on CHR ''/'' (REPOS ! i) = [owner, name]
               \<and> k < MAX_PAGES
               \<and> (\<forall>p. 1 \<le> p \<and> p \<le> k \<longrightarrow>
                     page_stars strptime
                       (page_response srv
                          (sent (fetch_worlds strptime srv GITHUB_TOKEN REPOS
                                   (warn_token GITHUB_TOKEN w) ! i))
                          (stargazers_url owner name) (request_headers GITHUB_TOKEN) p)
                       = Some (ts p)
                     \<and> PER_PAGE \<le> length (ts p))
               \<and> status_code
                   (page_response srv
                      (sent (fetch_worlds strptime srv GITHUB_TOKEN REPOS
                               (warn_token GITHUB_TOKEN w) ! i))
                      (stargazers_url owner name) (request_headers GITHUB_TOKEN) (Suc k)) \<noteq> 200
               \<longrightarrow> map fst (snd (repo_data ! i)) = sort (concat (map ts [1..<Suc k]))
                   \<and> map snd (snd (repo_data ! i))
                       = [1..int (length (concat (map ts [1..<Suc k])))])
         \<and> (any_values repo_data \<longrightarrow>
               snd (main strptime srv GITHUB_TOKEN w)
                 = py_print (CHR 0x0A # ''Star history chart generated successfully!'')
                     (generate_chart repo_data w'))"
proof -
  let ?ws = "fetch_worlds strptime srv GITHUB_TOKEN REPOS (warn_token GITHUB_TOKEN w)"
  have keys: "map fst repo_data = REPOS"
    using fetch_repos_keys [OF assms distinct_REPOS] by simp
  then have len: "length repo_data = length REPOS" by (metis length_map)
  have present: "\<exists>data. map_of repo_data repo = Some data" if "repo \<in> set REPOS" for repo
    using fetch_repos_entry [OF assms distinct_REPOS that] by blast
  have entry: "map_of repo_data (REPOS ! i) = Some (snd (repo_data ! i))
               \<and> fst (get_star_history strptime srv GITHUB_TOKEN (REPOS ! i) (?ws ! i))
                   = Inr (snd (repo_data ! i))"
    if "i < length REPOS" for i
  proof -
    have "distinct (map fst repo_data)" using keys distinct_REPOS by simp
    moreover have "i < length repo_data" using that len by simp
    ultimately have "map_of repo_data (fst (repo_data ! i)) = Some (snd (repo_data ! i))"
      by (rule map_of_nth)
    moreover have "fst (repo_data ! i) = REPOS ! i"
      by (rule fetch_repos_nth(1) [OF assms distinct_REPOS that])
    ultimately show ?thesis
      using fetch_repos_nth(2) [OF assms distinct_REPOS that] by simp
  qed
  have partial: "map fst (snd (repo_data ! i)) = sort (concat (map ts [1..<Suc k]))
                   \<and> map snd (snd (repo_data ! i))
                       = [1..int (length (concat (map ts [1..<Suc k])))]"
    if "i < length REPOS" "split_on CHR ''/'' (REPOS ! i) = [owner, name]" "k < MAX_PAGES"
      "\<forall>p. 1 \<le> p \<and> p \<le> k \<longrightarrow>
                     page_stars strptime
                       (page_response srv (sent (?ws ! i))
                          (stargazers_url owner name) (request_headers GITHUB_TOKEN) p)
                       = Some (ts p)
                     \<and> PER_PAGE \<le> length (ts p)"
      "status_code (page_response srv (sent (?ws ! i))
                      (stargazers_url owner name) (request_headers GITHUB_TOKEN) (Suc k)) \<noteq> 200"
    for i owner name k ts
  proof -
    from get_star_history_failure_after [OF that(2) refl refl that(3,4) refl that(5)]
    have "fst (get_star_history strptime srv GITHUB_TOKEN (REPOS ! i) (?ws ! i))
            = Inr (cumulative (concat (map ts [1..<Suc k])))"
      by auto
    with entry [OF that(1)] have "snd (repo_data ! i) = cumulative (concat (map ts [1..<Suc k]))"
      by simp
    then show ?thesis by (simp only: cumulative_dates cumulative_counts)
  qed
  have empty: "snd (repo_data ! i) = []"
    if "i < length REPOS" "split_on CHR ''/'' (REPOS ! i) = [owner, name]"
      "status_code (page_response srv (sent (?ws ! i))
                      (stargazers_url owner name) (request_headers GITHUB_TOKEN) 1) \<noteq> 200"
    for i owner name
  proof -
    have "status_code (srv (sent (?ws ! i))
            (page_request (stargazers_url owner name) (request_headers GITHUB_TOKEN) 1)) \<noteq> 200"
      using that(3) by (simp add: page_response_def)
    then have "fst (get_star_history strptime srv GITHUB_TOKEN (REPOS ! i) (?ws ! i)) = Inr []"
      by (rule get_star_history_first_page_failed [where srv = srv and w = "?ws ! i", OF that(2)])
    with entry [OF that(1)] show ?thesis by simp
  qed
  have handed: "snd (main strptime srv GITHUB_TOKEN w)
                 = py_print (CHR 0x0A # ''Star history chart generated successfully!'')
                     (generate_chart repo_data w')" if "any_values repo_data"
    using that by (simp add: main_result [OF assms])
  from keys present entry empty partial handed show ?thesis by blast
qed

text \<open>A rate limit that lets the first request through and refuses every later one: the
  first request for the second repository is answered 403, and its entry is the empty
  series.\<close>

theorem mapping_entry_for_every_configured_repository_witness:
  "fst (fetch_repos day_strptime rate_limited_server None REPOS [] (warn_token None fresh_world))
     = Inr pyclean_only_data
   \<and> map fst pyclean_only_data = REPOS
   \<and> status_code
       (page_response rate_limited_server
          (sent (fetch_worlds day_strptime rate_limited_server None REPOS
                   (warn_token None fresh_world) ! 1))
          (stargazers_url ''painless-software'' ''python-cli-test-helpers'')
          (request_headers None) 1) = 403
   \<and> snd (pyclean_only_data ! 1) = []
   \<and> map_of pyclean_only_data ''painless-software/python-cli-test-helpers'' = Some []"
proof -
  let ?w0 = "warn_token None fresh_world"
  let ?ws = "fetch_worlds day_strptime rate_limited_server None REPOS ?w0"
  have f: "fetch_repos day_strptime rate_limited_server None REPOS [] ?w0
          = (Inr pyclean_only_data, snd (fetch_repos day_strptime rate_limited_server None REPOS [] ?w0))"
    using rate_limited_fetch by (metis prod.collapse)
  have i: "1 < length REPOS" by (simp add: length_REPOS)
  have r: "REPOS ! 1 = ''painless-software/python-cli-test-helpers''"
    by (simp add: REPOS_def)
  have sp: "split_on CHR ''/'' (REPOS ! 1) = [''painless-software'', ''python-cli-test-helpers'']"
    by (simp only: r) simp
  have st: "status_code
       (page_response rate_limited_server (sent (?ws ! 1))
          (stargazers_url ''painless-software'' ''python-cli-test-helpers'')
          (request_headers None) 1) = 403"
    by (simp only: rate_limited_second_world)
       (simp add: page_response_def rate_limited_server_def forbidden_def)
  then have ne: "status_code
       (page_response rate_limited_server (sent (?ws ! 1))
          (stargazers_url ''painless-software'' ''python-cli-test-helpers'')
          (request_headers None) 1) \<noteq> 200"
    by simp
  from mapping_entry_for_every_configured_repository [OF f]
  have keys: "map fst pyclean_only_data = REPOS"
    and entry: "\<forall>i. i < length REPOS \<longrightarrow>
               map_of pyclean_only_data (REPOS ! i) = Some (snd (pyclean_only_data ! i))
               \<and> fst (get_star_history day_strptime rate_limited_server None (REPOS ! i) (?ws ! i))
                   = Inr (snd (pyclean_only_data ! i))"
    and empty: "\<forall>i owner name.
               i < length REPOS \<and> split_on CHR ''/'' (REPOS ! i) = [owner, name]
               \<and> status_code
                   (page_response rate_limited_server (sent (?ws ! i))
                      (stargazers_url owner name) (request_headers None) 1) \<noteq> 200
               \<longrightarrow> snd (pyclean_only_data ! i) = []"
    by blast+
  from empty i sp ne have e: "snd (pyclean_only_data ! 1) = []" by blast
  from entry i have "map_of pyclean_only_data (REPOS ! 1) = Some (snd (pyclean_only_data ! 1))"
    by blast
  then have "map_of pyclean_only_data ''painless-software/python-cli-test-helpers'' = Some []"
    by (simp only: r e)
  with rate_limited_fetch keys st e show ?thesis by blast
qed

text \<open>
  C8 as stated puts the empty series under the key of every repository whose fetch failed.
  Against a server whose first page is full and whose second page is answered 404, the
  fetch of every repository fails at its second request, and every key holds a series of
  100 entries.
\<close>

theorem failed_fetch_nonempty_series_counterexample:
  "status_code
     (page_response one_full_page_server (sent (warn_token None fresh_world))
        (stargazers_url ''bittner'' ''pyclean'') (request_headers None) 2) = 404
   \<and> fst (fetch_repos day_strptime one_full_page_server None REPOS [] (warn_token None fresh_world))
       = Inr (map (\<lambda>r. (r, zip (replicate 100 1) [1..100])) REPOS)
   \<and> map_of (map (\<lambda>r. (r, zip (replicate 100 (1::nat)) [1..100::int])) REPOS) ''bittner/pyclean''
       = Some (zip (replicate 100 1) [1..100])
   \<and> length (zip (replicate 100 (1::nat)) [1..100::int]) = 100"
proof -
  have "status_code
     (page_response one_full_page_server (sent (warn_token None fresh_world))
        (stargazers_url ''bittner'' ''pyclean'') (request_headers None) 2) = 404"
    by (simp add: page_response_def one_full_page_server_def page_request_def not_found_def)
  moreover have "map_of (map (\<lambda>r. (r, zip (replicate 100 (1::nat)) [1..100::int])) REPOS)
                   ''bittner/pyclean'' = Some (zip (replicate 100 1) [1..100])"
    by (simp add: REPOS_def)
  moreover have "length (zip (replicate 100 (1::nat)) [1..100::int]) = 100"
    by simp
  ultimately show ?thesis using one_full_page_fetch [of None "warn_token None fresh_world"]
    by blast
qed

text \<open>
  C10, as amended. The colour of a plotted series is fixed by the position of its repository
  in the whole mapping, entries with an empty series counted: the line of the entry at index
  \<open>i\<close> has the colour \<open>COLORS ! (i mod 10)\<close>. Hence taking the data away from one
  repository, which leaves its key in the mapping with an empty series, removes its line and
  changes nothing else: every other line, its colour included, is as before.
\<close>

theorem colors_follow_position_in_mapping:
  "map (\<lambda>l. (label l, color l)) (plot_lines (chart repo_data))
     = map (\<lambda>i. (fst (repo_data ! i), COLORS ! (i mod 10)))
         (filter (\<lambda>i. snd (repo_data ! i) \<noteq> []) [0..<length repo_data])
   \<and> (\<forall>i. distinct (map fst repo_data) \<and> i < length repo_data \<longrightarrow>
          plot_lines (chart (repo_data[i := (fst (repo_data ! i), [])]))
            = filter (\<lambda>l. label l \<noteq> fst (repo_data ! i)) (plot_lines (chart repo_data)))"
  using colors_by_position [of repo_data] emptied_entry [of repo_data]
  by blast

text \<open>Three repositories with data, then the first one emptied: the other two keep the
  second and third colour.\<close>

theorem colors_follow_position_in_mapping_witness:
  "map (\<lambda>l. (label l, color l)) (plot_lines (chart three_repos))
     = [(''bittner/pyclean'', ''#1f77b4''), (''behave/behave-django'', ''#ff7f0e''),
        (''behave/behave'', ''#2ca02c'')]
   \<and> map (\<lambda>l. (label l, color l))
       (plot_lines (chart (three_repos[0 := (''bittner/pyclean'', [])])))
     = [(''behave/behave-django'', ''#ff7f0e''), (''behave/behave'', ''#2ca02c'')]"
proof -
  have d: "distinct (map fst three_repos) \<and> 0 < length three_repos"
    by (simp add: three_repos_def)
  have h: "fst (three_repos ! 0) = ''bittner/pyclean''"
    by (simp add: three_repos_def)
  from colors_follow_position_in_mapping [of three_repos]
  have a: "map (\<lambda>l. (label l, color l)) (plot_lines (chart three_repos))
     = map (\<lambda>i. (fst (three_repos ! i), COLORS ! (i mod 10)))
         (filter (\<lambda>i. snd (three_repos ! i) \<noteq> []) [0..<length three_repos])"
    and b: "plot_lines (chart (three_repos[0 := (fst (three_repos ! 0), [])]))
            = filter (\<lambda>l. label l \<noteq> fst (three_repos ! 0)) (plot_lines (chart three_repos))"
    using d by blast+
  have lines: "map (\<lambda>l. (label l, color l)) (plot_lines (chart three_repos))
     = [(''bittner/pyclean'', ''#1f77b4''), (''behave/behave-django'', ''#ff7f0e''),
        (''behave/behave'', ''#2ca02c'')]"
    unfolding a by (simp add: three_repos_def COLORS_def upt_rec)
  have "map (\<lambda>l. (label l, color l))
       (plot_lines (chart (three_repos[0 := (''bittner/pyclean'', [])])))
     = map (\<lambda>l. (label l, color l))
         (filter (\<lambda>l. label l \<noteq> ''bittner/pyclean'') (plot_lines (chart three_repos)))"
    using b by (simp only: h)
  also have "\<dots> = filter (\<lambda>p. fst p \<noteq> ''bittner/pyclean'')
                     (map (\<lambda>l. (label l, color l)) (plot_lines (chart three_repos)))"
    by (simp add: filter_map comp_def)
  also have "\<dots> = [(''behave/behave-django'', ''#ff7f0e''), (''behave/behave'', ''#2ca02c'')]"
    unfolding lines by simp
  finally show ?thesis using lines by simp
qed

text \<open>
  C10 as stated says that taking the data away from one repository can change the colours
  of the repositories listed after it. No mapping (a dict, so with distinct keys), no
  emptied entry \<open>i\<close> and no later entry \<open>j\<close> does that.
\<close>

theorem emptied_series_changes_later_colors_counterexample:
  "\<not> (\<exists>(repo_data :: (string \<times> (nat \<times> int) list) list) i j.
        distinct (map fst repo_data) \<and> i < j \<and> j < length repo_data
        \<and> map color (filter (\<lambda>l. label l = fst (repo_data ! j))
                         (plot_lines (chart (repo_data[i := (fst (repo_data ! i), [])]))))
            \<noteq> map color (filter (\<lambda>l. label l = fst (repo_data ! j))
                             (plot_lines (chart repo_data))))"
proof
  assume "\<exists>(repo_data :: (string \<times> (nat \<times> int) list) list) i j.
        distinct (map fst repo_data) \<and> i < j \<and> j < length repo_data
        \<and> map color (filter (\<lambda>l. label l = fst (repo_data ! j))
                         (plot_lines (chart (repo_data[i := (fst (repo_data ! i), [])]))))
            \<noteq> map color (filter (\<lambda>l. label l = fst (repo_data ! j))
                             (plot_lines (chart repo_data)))"
  then obtain repo_data :: "(string \<times> (nat \<times> int) list) list" and i j where
    d: "distinct (map fst repo_data)" and ij: "i < j" "j < length repo_data"
    and changed: "map color (filter (\<lambda>l. label l = fst (repo_data ! j))
                         (plot_lines (chart (repo_data[i := (fst (repo_data ! i), [])]))))
            \<noteq> map color (filter (\<lambda>l. label l = fst (repo_data ! j))
                             (plot_lines (chart repo_data)))"
    by blast
  have i: "i < length repo_data" using ij by simp
  have "fst (repo_data ! i) \<noteq> fst (repo_data ! j)"
  proof
    assume "fst (repo_data ! i) = fst (repo_data ! j)"
    then have "map fst repo_data ! i = map fst repo_data ! j"
      using ij i by (simp only: nth_map)
    with d have "i = j"
      using ij i by (simp only: nth_eq_iff_index_eq length_map)
    with ij show False by simp
  qed
  then have ne: "fst (repo_data ! i) \<noteq> fst (repo_data ! j)" .
  have "filter (\<lambda>l. label l = fst (repo_data ! j))
          (plot_lines (chart (repo_data[i := (fst (repo_data ! i), [])])))
        = filter (\<lambda>l. label l = fst (repo_data ! j))
            (filter (\<lambda>l. label l \<noteq> fst (repo_data ! i)) (plot_lines (chart repo_data)))"
    by (simp only: emptied_entry [OF d i])
  also have "\<dots> = filter (\<lambda>l. label l = fst (repo_data ! j)) (plot_lines (chart repo_data))"
    by (rule filter_label_other [OF ne])
  finally have "map color (filter (\<lambda>l. label l = fst (repo_data ! j))
                         (plot_lines (chart (repo_data[i := (fst (repo_data ! i), [])]))))
            = map color (filter (\<lambda>l. label l = fst (repo_data ! j))
                             (plot_lines (chart repo_data)))"
    by (rule arg_cong)
  with changed show False by contradiction
qed

end
